theory Spec2Isabelle
  imports Main "HOL-Library.Multiset" "HOL-Library.AList"
begin

section \<open>Errors\<close>

text \<open>
  The exceptions the modelled code can raise. \<open>ValueError\<close> is raised by
  \<^verbatim>\<open>int()\<close>, by \<^verbatim>\<open>date(y, m, d)\<close> and by the explicit \<^verbatim>\<open>raise\<close>
  statements of \<^verbatim>\<open>parse_mm_dd\<close>; \<open>OverflowError\<close> is raised by
  \<^verbatim>\<open>timedelta(days=n)\<close> when \<open>n\<close> is too large, by date arithmetic that
  leaves the range of \<^verbatim>\<open>datetime.date\<close>, and by \<^verbatim>\<open>date(y, m, d)\<close> when an
  argument does not fit a C int.
\<close>

datatype py_error = ValueError | OverflowError

section \<open>Strings\<close>

text \<open>
  A string is a list of code points below 256 (ASCII and Latin-1), one \<open>char\<close> each.
  On these code points the white space of \<^verbatim>\<open>str.strip()\<close> and \<^verbatim>\<open>str.split()\<close>
  is 9 to 13, 28 to 32, 133 (next line) and 160 (no-break space), and
  \<^verbatim>\<open>str.lower()\<close> moves the capital letters 65 to 90, 192 to 214 and 216 to 222
  up by 32 and leaves every other code point alone.
\<close>

definition is_space :: "char \<Rightarrow> bool" where
  "is_space c =
     (let n = (of_char c :: nat)
      in (9 \<le> n \<and> n \<le> 13) \<or> (28 \<le> n \<and> n \<le> 32) \<or> n = 133 \<or> n = 160)"

definition is_upper :: "char \<Rightarrow> bool" where
  "is_upper c =
     (let n = (of_char c :: nat)
      in (65 \<le> n \<and> n \<le> 90) \<or> (192 \<le> n \<and> n \<le> 214) \<or> (216 \<le> n \<and> n \<le> 222))"

definition lower_char :: "char \<Rightarrow> char" where
  "lower_char c = (if is_upper c then char_of ((of_char c :: nat) + 32) else c)"

definition lower :: "string \<Rightarrow> string" where
  "lower s = map lower_char s"

definition strip :: "string \<Rightarrow> string" where
  "strip s = rev (dropWhile is_space (rev (dropWhile is_space s)))"

text \<open>
  \<^verbatim>\<open>s.split()\<close> without argument: the maximal runs of characters that are not
  white space, in order. \<open>cur\<close> is the run being read.
\<close>

fun split_ws_aux :: "string \<Rightarrow> string \<Rightarrow> string list" where
  "split_ws_aux cur [] = (if cur = [] then [] else [cur])"
| "split_ws_aux cur (c # cs) =
     (if is_space c then (if cur = [] then split_ws_aux [] cs else cur # split_ws_aux [] cs)
      else split_ws_aux (cur @ [c]) cs)"

definition split_ws :: "string \<Rightarrow> string list" where
  "split_ws s = split_ws_aux [] s"

text \<open>\<^verbatim>\<open>sep.join(parts)\<close>.\<close>

fun join :: "string \<Rightarrow> string list \<Rightarrow> string" where
  "join sep [] = []"
| "join sep [p] = p"
| "join sep (p # q # ps) = p @ sep @ join sep (q # ps)"

text \<open>
  \<^verbatim>\<open>def normalize(s): return " ".join((s or "").strip().lower().split())\<close>
\<close>

definition normalize_str :: "string \<Rightarrow> string" where
  "normalize_str s = join '' '' (split_ws (lower (strip s)))"

section \<open>Calendar dates\<close>

text \<open>
  A \<^verbatim>\<open>datetime.date\<close> is modelled by its proleptic Gregorian ordinal
  (\<^verbatim>\<open>date.toordinal()\<close>): day 1 is 0001-01-01 and day 3652059 is 9999-12-31.
  Comparison, \<^verbatim>\<open>min\<close> and \<^verbatim>\<open>max\<close> of dates are those of the ordinals.
\<close>

type_synonym date = int

definition MINORD :: int where "MINORD = 1"
definition MAXORD :: int where "MAXORD = 3652059"

definition valid_date :: "date \<Rightarrow> bool" where
  "valid_date d = (MINORD \<le> d \<and> d \<le> MAXORD)"

text \<open>
  \<^verbatim>\<open>d + timedelta(days=n)\<close> (and \<^verbatim>\<open>d - timedelta(days=n)\<close> as \<open>add_days d (- n)\<close> ):
  \<^verbatim>\<open>timedelta\<close> refuses more than 999999999 days either way, and the sum must be
  a date again; both failures are an \<^verbatim>\<open>OverflowError\<close>.
\<close>

definition add_days :: "date \<Rightarrow> int \<Rightarrow> py_error + date" where
  "add_days d n =
     (if \<bar>n\<bar> > 999999999 then Inl OverflowError
      else if valid_date (d + n) then Inr (d + n)
      else Inl OverflowError)"

section \<open>Data model\<close>

record RetailPromoRow =
  row_id :: int
  vendor :: string
  entry_type :: string
  start_date :: date
  end_date :: "date option"

record VendorPlan =
  plan_vendor :: string
  sale_display_start :: "date option"
  sale_display_end :: "date option"
  pi_display_start :: "date option"
  pi_display_end :: "date option"
  sale_real_start :: "date option"
  sale_real_end :: "date option"
  pi_real_start :: "date option"
  pi_real_end :: "date option"

text \<open>\<^verbatim>\<open>VendorPlan(vendor=v)\<close>: every date field defaults to \<^verbatim>\<open>None\<close>.\<close>

definition new_plan :: "string \<Rightarrow> VendorPlan" where
  "new_plan v = \<lparr> plan_vendor = v,
     sale_display_start = None, sale_display_end = None,
     pi_display_start = None, pi_display_end = None,
     sale_real_start = None, sale_real_end = None,
     pi_real_start = None, pi_real_end = None \<rparr>"

section \<open>Window calculator\<close>

text \<open>
  \<^verbatim>\<open>compute_display_window(row, x, y, z)\<close>. A date is always truthy, so
  \<^verbatim>\<open>row.end_date or row.start_date\<close> and \<^verbatim>\<open>row.end_date if row.end_date else ...\<close>
  test for \<^verbatim>\<open>None\<close>. In the price-increase branch the end of the window is
  computed before the start, as in the source.
\<close>

definition compute_display_window ::
  "RetailPromoRow \<Rightarrow> int \<Rightarrow> int \<Rightarrow> int \<Rightarrow> py_error + (date \<times> date)" where
  "compute_display_window row x y z =
     (let t = normalize_str (entry_type row) in
      if t = ''sale'' then
        (case add_days (start_date row) (- x) of
           Inl e \<Rightarrow> Inl e
         | Inr ds \<Rightarrow> Inr (ds, (case end_date row of Some e \<Rightarrow> e | None \<Rightarrow> start_date row)))
      else if t = ''price increase'' then
        (case (case end_date row of Some e \<Rightarrow> Inr e | None \<Rightarrow> add_days (start_date row) z) of
           Inl e \<Rightarrow> Inl e
         | Inr end_display \<Rightarrow>
             (case add_days (start_date row) (- y) of
                Inl e \<Rightarrow> Inl e
              | Inr ds \<Rightarrow> Inr (ds, end_display)))
      else Inr (start_date row, start_date row))"

section \<open>Vendor aggregator\<close>

text \<open>
  The dictionary \<^verbatim>\<open>by_vendor\<close> is an association list in insertion order:
  \<open>AList.update\<close> replaces the value of a key that is present where it stands and
  appends a new key at the end, as assignment to a Python \<^verbatim>\<open>dict\<close> does.
  \<^verbatim>\<open>by_vendor.get(v) or VendorPlan(vendor=v)\<close>: a plan object is always truthy.
\<close>

type_synonym vendor_dict = "(string \<times> VendorPlan) list"

definition get_plan :: "vendor_dict \<Rightarrow> string \<Rightarrow> VendorPlan" where
  "get_plan by_vendor v = (case map_of by_vendor v of Some w \<Rightarrow> w | None \<Rightarrow> new_plan v)"

text \<open>\<^verbatim>\<open>new if old is None else min(old, new)\<close> and the same with \<^verbatim>\<open>max\<close>.\<close>

definition merge_min :: "date option \<Rightarrow> date \<Rightarrow> date option" where
  "merge_min old new = (case old of None \<Rightarrow> Some new | Some a \<Rightarrow> Some (min a new))"

definition merge_max :: "date option \<Rightarrow> date \<Rightarrow> date option" where
  "merge_max old new = (case old of None \<Rightarrow> Some new | Some a \<Rightarrow> Some (max a new))"

text \<open>
  The body of the loop of \<^verbatim>\<open>aggregate_by_vendor\<close> once the display window
  \<open>(d_start, d_end)\<close> of the row is known: the updates of the plan \<open>w\<close>.
\<close>

definition merge_row :: "VendorPlan \<Rightarrow> RetailPromoRow \<Rightarrow> date \<Rightarrow> date \<Rightarrow> VendorPlan" where
  "merge_row w r d_start d_end =
     (let t = normalize_str (entry_type r) in
      if t = ''sale'' then
        (let real_end = (case end_date r of Some e \<Rightarrow> e | None \<Rightarrow> start_date r) in
         w\<lparr> sale_display_start := merge_min (sale_display_start w) d_start,
            sale_display_end := merge_max (sale_display_end w) d_end,
            sale_real_start := merge_min (sale_real_start w) (start_date r),
            sale_real_end := merge_max (sale_real_end w) real_end \<rparr>)
      else if t = ''price increase'' then
        (let w1 = w\<lparr> pi_display_start := merge_min (pi_display_start w) d_start,
                      pi_display_end := merge_max (pi_display_end w) d_end,
                      pi_real_start := merge_min (pi_real_start w) (start_date r) \<rparr>
         in case end_date r of
              Some e \<Rightarrow> w1\<lparr> pi_real_end := merge_max (pi_real_end w1) e \<rparr>
            | None \<Rightarrow> w1)
      else w)"

text \<open>One iteration of the loop: look the plan up, compute the window, merge, store.\<close>

definition aggregate_step ::
  "vendor_dict \<Rightarrow> RetailPromoRow \<Rightarrow> int \<Rightarrow> int \<Rightarrow> int \<Rightarrow> py_error + vendor_dict" where
  "aggregate_step by_vendor r x y z =
     (let v = vendor r; w = get_plan by_vendor v in
      case compute_display_window r x y z of
        Inl e \<Rightarrow> Inl e
      | Inr (d_start, d_end) \<Rightarrow> Inr (AList.update v (merge_row w r d_start d_end) by_vendor))"

fun aggregate_loop ::
  "vendor_dict \<Rightarrow> RetailPromoRow list \<Rightarrow> int \<Rightarrow> int \<Rightarrow> int \<Rightarrow> py_error + vendor_dict" where
  "aggregate_loop by_vendor [] x y z = Inr by_vendor"
| "aggregate_loop by_vendor (r # rows) x y z =
     (case aggregate_step by_vendor r x y z of
        Inl e \<Rightarrow> Inl e
      | Inr by_vendor' \<Rightarrow> aggregate_loop by_vendor' rows x y z)"

text \<open>\<^verbatim>\<open>aggregate_by_vendor(rows, x, y, z)\<close> returns \<^verbatim>\<open>list(by_vendor.values())\<close>.\<close>

definition aggregate_by_vendor ::
  "RetailPromoRow list \<Rightarrow> int \<Rightarrow> int \<Rightarrow> int \<Rightarrow> py_error + VendorPlan list" where
  "aggregate_by_vendor rows x y z =
     (case aggregate_loop [] rows x y z of
        Inl e \<Rightarrow> Inl e
      | Inr by_vendor \<Rightarrow> Inr (map snd by_vendor))"

text \<open>
  Vocabulary for the statements below: the entry-type tests of the aggregator, the
  window of a row when it can be computed, one iteration of the loop as a function of
  the plan, the plan the rows of one vendor fold to, and the plan of a vendor in the
  returned list.
\<close>

definition is_sale :: "RetailPromoRow \<Rightarrow> bool" where
  "is_sale r = (normalize_str (entry_type r) = ''sale'')"

definition is_pi :: "RetailPromoRow \<Rightarrow> bool" where
  "is_pi r = (normalize_str (entry_type r) = ''price increase'')"

definition row_window :: "int \<Rightarrow> int \<Rightarrow> int \<Rightarrow> RetailPromoRow \<Rightarrow> date \<times> date" where
  "row_window x y z r =
     (case compute_display_window r x y z of Inr p \<Rightarrow> p | Inl _ \<Rightarrow> (start_date r, start_date r))"

definition fold_row :: "int \<Rightarrow> int \<Rightarrow> int \<Rightarrow> RetailPromoRow \<Rightarrow> VendorPlan \<Rightarrow> VendorPlan" where
  "fold_row x y z r w = merge_row w r (fst (row_window x y z r)) (snd (row_window x y z r))"

definition vendor_plan :: "int \<Rightarrow> int \<Rightarrow> int \<Rightarrow> RetailPromoRow list \<Rightarrow> string \<Rightarrow> VendorPlan" where
  "vendor_plan x y z rows v =
     fold (fold_row x y z) (filter (\<lambda>r. vendor r = v) rows) (new_plan v)"

definition plan_for :: "string \<Rightarrow> VendorPlan list \<Rightarrow> VendorPlan option" where
  "plan_for v plans = find (\<lambda>w. plan_vendor w = v) plans"

text \<open>
  Two code points that are the same letter up to case, said without \<open>lower\<close>: they
  are equal, or one is a capital letter and the other lies 32 above it.
\<close>

definition same_letter :: "char \<Rightarrow> char \<Rightarrow> bool" where
  "same_letter c d =
     (c = d \<or> (is_upper c \<and> (of_char d :: nat) = of_char c + 32)
            \<or> (is_upper d \<and> (of_char c :: nat) = of_char d + 32))"

text \<open>
  The source end dates of the price-increase rows of a vendor, and the real ends of
  its sale rows as the aggregator reads them (the start date where the end is absent).
\<close>

definition pi_source_ends :: "string \<Rightarrow> RetailPromoRow list \<Rightarrow> date list" where
  "pi_source_ends v rows =
     map (\<lambda>r. the (end_date r)) (filter (\<lambda>r. vendor r = v \<and> is_pi r \<and> end_date r \<noteq> None) rows)"

definition sale_ends :: "string \<Rightarrow> RetailPromoRow list \<Rightarrow> date list" where
  "sale_ends v rows =
     map (\<lambda>r. case end_date r of Some e \<Rightarrow> e | None \<Rightarrow> start_date r)
       (filter (\<lambda>r. vendor r = v \<and> is_sale r) rows)"

section \<open>Serialising dates\<close>

text \<open>
  \<^verbatim>\<open>date.isoformat()\<close> is \<^verbatim>\<open>"%04d-%02d-%02d" % (year, month, day)\<close>. The fields of
  a date given by its ordinal are those of \<^verbatim>\<open>date.fromordinal\<close>, which the standard
  library computes from the cycles of 400, 100 and 4 years.
\<close>

definition digit_char :: "nat \<Rightarrow> char" where
  "digit_char n = ''0123456789'' ! n"

fun dec :: "nat \<Rightarrow> string" where
  "dec n = (if n < 10 then [digit_char n] else dec (n div 10) @ [digit_char (n mod 10)])"

definition zfill :: "nat \<Rightarrow> string \<Rightarrow> string" where
  "zfill width s = replicate (width - length s) (CHR ''0'') @ s"

definition isoformat_ymd :: "int \<Rightarrow> int \<Rightarrow> int \<Rightarrow> string" where
  "isoformat_ymd y m d =
     zfill 4 (dec (nat y)) @ ''-'' @ zfill 2 (dec (nat m)) @ ''-'' @ zfill 2 (dec (nat d))"


definition DAYS_IN_MONTH :: "int list" where
  "DAYS_IN_MONTH = [-1, 31, 28, 31, 30, 31, 30, 31, 31, 30, 31, 30, 31]"

definition DAYS_BEFORE_MONTH :: "int list" where
  "DAYS_BEFORE_MONTH = [-1, 0, 31, 59, 90, 120, 151, 181, 212, 243, 273, 304, 334]"


definition ord2ymd :: "int \<Rightarrow> int \<times> int \<times> int" where
  "ord2ymd ordinal =
     (let n = ordinal - 1;
          n400 = n div 146097; n = n mod 146097;
          year = n400 * 400 + 1;
          n100 = n div 36524; n = n mod 36524;
          n4 = n div 1461; n = n mod 1461;
          n1 = n div 365; n = n mod 365;
          year = year + n100 * 100 + n4 * 4 + n1
      in if n1 = 4 \<or> n100 = 4 then (year - 1, 12, 31)
         else
           (let leapyear = (n1 = 3 \<and> (n4 \<noteq> 24 \<or> n100 = 3));
                month = (n + 50) div 32;
                preceding = DAYS_BEFORE_MONTH ! nat month + (if month > 2 \<and> leapyear then 1 else 0)
            in if preceding > n
               then (let month = month - 1;
                         preceding = preceding - (DAYS_IN_MONTH ! nat month
                                       + (if month = 2 \<and> leapyear then 1 else 0))
                     in (year, month, n - preceding + 1))
               else (year, month, n - preceding + 1)))"

definition isoformat :: "date \<Rightarrow> string" where
  "isoformat d = (case ord2ymd d of (y, m, dd) \<Rightarrow> isoformat_ymd y m dd)"

section \<open>Sync driver: what to write and what to delete\<close>

definition MF_NAMESPACE :: string where "MF_NAMESPACE = ''custom''"
definition MF_SALE_START :: string where "MF_SALE_START = ''promo_sale_start_date''"
definition MF_SALE_END :: string where "MF_SALE_END = ''promo_sale_end_date''"
definition MF_PI_START :: string where "MF_PI_START = ''promo_pi_start_date''"
definition MF_PI_END :: string where "MF_PI_END = ''promo_pi_end_date''"

text \<open>The dictionary \<^verbatim>\<open>build_date_metafield\<close> returns.\<close>

record metafield =
  mf_ownerId :: string
  mf_namespace :: string
  mf_key :: string
  mf_type :: string
  mf_value :: string

definition build_date_metafield :: "string \<Rightarrow> string \<Rightarrow> string \<Rightarrow> date \<Rightarrow> metafield" where
  "build_date_metafield owner_id namespace key d =
     \<lparr> mf_ownerId = owner_id, mf_namespace = namespace, mf_key = key,
       mf_type = ''date'', mf_value = isoformat d \<rparr>"

text \<open>
  The decisions \<^verbatim>\<open>main\<close> takes for one plan \<open>w\<close> and one product \<open>pid\<close>, as
  functions of the plan and of \<open>today\<close>. The conjunctions are evaluated left to right
  as in Python, so \<open>the\<close> is only applied to a field that is present.
\<close>

definition sale_should_exist :: "VendorPlan \<Rightarrow> date \<Rightarrow> bool" where
  "sale_should_exist w today =
     (sale_display_start w \<noteq> None \<and> sale_display_end w \<noteq> None \<and>
      the (sale_display_start w) \<le> today \<and> today \<le> the (sale_display_end w))"

definition pi_should_exist :: "VendorPlan \<Rightarrow> date \<Rightarrow> bool" where
  "pi_should_exist w today =
     (pi_display_start w \<noteq> None \<and> pi_display_end w \<noteq> None \<and>
      the (pi_display_start w) \<le> today \<and> today \<le> the (pi_display_end w))"

definition product_payload :: "VendorPlan \<Rightarrow> date \<Rightarrow> string \<Rightarrow> metafield list" where
  "product_payload w today pid =
     (if sale_should_exist w today \<and> sale_real_start w \<noteq> None \<and> sale_real_end w \<noteq> None
      then [build_date_metafield pid MF_NAMESPACE MF_SALE_START (the (sale_real_start w)),
            build_date_metafield pid MF_NAMESPACE MF_SALE_END (the (sale_real_end w))]
      else []) @
     (if pi_should_exist w today \<and> pi_real_start w \<noteq> None
      then build_date_metafield pid MF_NAMESPACE MF_PI_START (the (pi_real_start w)) #
           (if pi_real_end w \<noteq> None
            then [build_date_metafield pid MF_NAMESPACE MF_PI_END (the (pi_real_end w))]
            else [])
      else [])"

definition keys_to_delete :: "VendorPlan \<Rightarrow> date \<Rightarrow> string list" where
  "keys_to_delete w today =
     (if \<not> sale_should_exist w today then [MF_SALE_START, MF_SALE_END] else []) @
     (if \<not> pi_should_exist w today then [MF_PI_START, MF_PI_END] else [])"

text \<open>
  \<^verbatim>\<open>get_metafield_ids\<close> after the query: \<open>mfs\<close> is the list of nodes the store
  answered with, \<^verbatim>\<open>null\<close> for a field the product does not have. The result maps a
  requested key to the id of its node; a key without node stays \<^verbatim>\<open>None\<close>.
\<close>

record mf_node =
  node_id :: "string option"
  node_key :: "string option"

definition get_metafield_ids :: "string list \<Rightarrow> mf_node option list \<Rightarrow> (string \<rightharpoonup> string)" where
  "get_metafield_ids keys mfs =
     fold (\<lambda>mf out. case mf of
                       None \<Rightarrow> out
                     | Some n \<Rightarrow> (case node_key n of
                                    None \<Rightarrow> out
                                  | Some k \<Rightarrow> if k \<in> set keys then out(k := node_id n) else out))
          mfs Map.empty"

text \<open>
  The deletion loop of \<^verbatim>\<open>main\<close> when \<^verbatim>\<open>DRY_RUN\<close> is off. \<open>delete_ok i\<close>
  tells whether \<^verbatim>\<open>shop.metafield_delete(i)\<close> returns; when it raises, the
  \<^verbatim>\<open>except\<close> clause ends the loop for this product. The result is the list of ids
  deleted and whether the \<^verbatim>\<open>DELETE ERROR\<close> branch was taken. An empty id is falsy.
\<close>

fun delete_loop :: "(string \<Rightarrow> bool) \<Rightarrow> (string \<rightharpoonup> string) \<Rightarrow> string list \<Rightarrow> string list \<times> bool" where
  "delete_loop delete_ok id_map [] = ([], False)"
| "delete_loop delete_ok id_map (k # ks) =
     (case id_map k of
        None \<Rightarrow> delete_loop delete_ok id_map ks
      | Some mf_id \<Rightarrow>
          if mf_id = [] then delete_loop delete_ok id_map ks
          else if delete_ok mf_id
               then (case delete_loop delete_ok id_map ks of (ds, err) \<Rightarrow> (mf_id # ds, err))
               else ([], True))"

definition delete_metafields ::
  "(string \<Rightarrow> bool) \<Rightarrow> mf_node option list \<Rightarrow> string list \<Rightarrow> string list \<times> bool" where
  "delete_metafields delete_ok mfs keys = delete_loop delete_ok (get_metafield_ids keys mfs) keys"

section \<open>Reading the promotion rows\<close>

text \<open>
  A value of a result-set column as \<^verbatim>\<open>to_date_only\<close> sees it: \<^verbatim>\<open>None\<close>, a
  \<^verbatim>\<open>datetime\<close> (given by its date), a \<^verbatim>\<open>date\<close>, a string, or a value of any
  other type. The two parsers of the standard library are parameters:
  \<open>lib_strptime s fmt\<close> is the date of \<^verbatim>\<open>datetime.strptime(s, fmt)\<close> and
  \<open>lib_fromisoformat s\<close> that of \<^verbatim>\<open>datetime.fromisoformat(s)\<close>, \<open>None\<close> when the
  call raises.
\<close>

datatype raw_value = RawNone | RawDatetime date | RawDate date | RawStr string | RawOther

record date_lib =
  lib_strptime :: "string \<Rightarrow> string \<Rightarrow> date option"
  lib_fromisoformat :: "string \<Rightarrow> date option"

fun try_formats :: "date_lib \<Rightarrow> string \<Rightarrow> string list \<Rightarrow> date option" where
  "try_formats lib s [] = None"
| "try_formats lib s (fmt # fmts) =
     (case lib_strptime lib s fmt of Some d \<Rightarrow> Some d | None \<Rightarrow> try_formats lib s fmts)"

definition to_date_only :: "date_lib \<Rightarrow> raw_value \<Rightarrow> date option" where
  "to_date_only lib v =
     (case v of
        RawNone \<Rightarrow> None
      | RawDatetime d \<Rightarrow> Some d
      | RawDate d \<Rightarrow> Some d
      | RawStr str \<Rightarrow>
          (let s = strip str in
           case try_formats lib s [''%Y-%m-%d'', ''%Y-%m-%d %H:%M:%S'', ''%Y-%m-%d %H:%M:%S.%f''] of
             Some d \<Rightarrow> Some d
           | None \<Rightarrow> lib_fromisoformat lib (filter (\<lambda>c. c \<noteq> CHR ''Z'') s))
      | RawOther \<Rightarrow> None)"

text \<open>
  A row of the result set, and the loop of \<^verbatim>\<open>fetch_active_today\<close> over the rows
  the query returned. \<^verbatim>\<open>ID\<close> is the integer key column of the table.
\<close>

record raw_row =
  raw_ID :: int
  raw_Vendor :: "string option"
  raw_EntryType :: "string option"
  raw_Date_of_Start :: raw_value
  raw_Date_of_End :: raw_value

fun fetch_active_today :: "date_lib \<Rightarrow> raw_row list \<Rightarrow> RetailPromoRow list" where
  "fetch_active_today lib [] = []"
| "fetch_active_today lib (r # raw) =
     (let vendor = strip (case raw_Vendor r of Some v \<Rightarrow> v | None \<Rightarrow> []);
          entry_type = strip (case raw_EntryType r of Some t \<Rightarrow> t | None \<Rightarrow> []);
          s = to_date_only lib (raw_Date_of_Start r);
          e = to_date_only lib (raw_Date_of_End r)
      in if vendor = [] \<or> entry_type = [] \<or> s = None then fetch_active_today lib raw
         else \<lparr> row_id = raw_ID r, vendor = vendor, entry_type = entry_type,
                start_date = the s, end_date = e \<rparr> # fetch_active_today lib raw)"

text \<open>
  A value that is no date for \<^verbatim>\<open>to_date_only\<close>: a string that every parse attempt
  rejects, or a value of another type.
\<close>

definition unparseable :: "date_lib \<Rightarrow> raw_value \<Rightarrow> bool" where
  "unparseable lib v =
     (case v of
        RawStr str \<Rightarrow>
          (let s = strip str in
           lib_strptime lib s ''%Y-%m-%d'' = None \<and>
           lib_strptime lib s ''%Y-%m-%d %H:%M:%S'' = None \<and>
           lib_strptime lib s ''%Y-%m-%d %H:%M:%S.%f'' = None \<and>
           lib_fromisoformat lib (filter (\<lambda>c. c \<noteq> CHR ''Z'') s) = None)
      | RawOther \<Rightarrow> True
      | _ \<Rightarrow> False)"

section \<open>Rows of the scenarios\<close>

text \<open>
  The rows of the scenarios of the specification, with the dates as ordinals: a Sale
  of vendor Acme from 2024-02-07 to 2024-02-17, an open-ended Price Increase of
  vendor Bolt starting 2024-02-04, and a Price Increase of Bolt from 2024-02-07 to
  2024-02-17 whose entry type is spelled differently.
\<close>

definition sale_row_A :: RetailPromoRow where
  "sale_row_A = \<lparr> row_id = 1, vendor = ''Acme'', entry_type = ''Sale'',
                  start_date = 738923, end_date = Some 738933 \<rparr>"

definition pi_row_B :: RetailPromoRow where
  "pi_row_B = \<lparr> row_id = 2, vendor = ''Bolt'', entry_type = ''Price Increase'',
                start_date = 738920, end_date = None \<rparr>"

definition pi_row_B2 :: RetailPromoRow where
  "pi_row_B2 = \<lparr> row_id = 3, vendor = ''Bolt'', entry_type = '' price  INCREASE'',
                 start_date = 738923, end_date = Some 738933 \<rparr>"

definition plan_A :: VendorPlan where
  "plan_A = \<lparr> plan_vendor = ''Acme'',
     sale_display_start = Some 738920, sale_display_end = Some 738933,
     pi_display_start = None, pi_display_end = None,
     sale_real_start = Some 738923, sale_real_end = Some 738933,
     pi_real_start = None, pi_real_end = None \<rparr>"

definition plan_B :: VendorPlan where
  "plan_B = \<lparr> plan_vendor = ''Bolt'',
     sale_display_start = None, sale_display_end = None,
     pi_display_start = Some 738918, pi_display_end = Some 738930,
     sale_real_start = None, sale_real_end = None,
     pi_real_start = Some 738920, pi_real_end = None \<rparr>"

text \<open>
  The answers of the two parsers on strings that hold no date at all: every attempt
  raises. The raw rows of the examples: one whose start is such a string, and the
  open-ended Price Increase of Bolt as the driver delivers it.
\<close>

definition no_date_lib :: date_lib where
  "no_date_lib = \<lparr> lib_strptime = (\<lambda>s fmt. None), lib_fromisoformat = (\<lambda>s. None) \<rparr>"

definition raw_bad_start :: raw_row where
  "raw_bad_start = \<lparr> raw_ID = 1, raw_Vendor = Some ''Acme'', raw_EntryType = Some ''Sale'',
     raw_Date_of_Start = RawStr ''not a date'', raw_Date_of_End = RawNone \<rparr>"

definition raw_row_B :: raw_row where
  "raw_row_B = \<lparr> raw_ID = 2, raw_Vendor = Some ''Bolt'', raw_EntryType = Some ''Price Increase'',
     raw_Date_of_Start = RawDate 738920, raw_Date_of_End = RawNone \<rparr>"

section \<open>Date normaliser of the test script\<close>

















section \<open>Properties of the string helpers\<close>

lemma of_char_lower_char:
  "(of_char (lower_char c) :: nat) = (if is_upper c then of_char c + 32 else of_char c)"
  by (auto simp: lower_char_def is_upper_def Let_def)

lemma is_space_lower_char [simp]: "is_space (lower_char c) = is_space c"
  unfolding is_space_def Let_def of_char_lower_char
  by (auto simp: is_upper_def Let_def)

lemma lower_strip: "lower (strip s) = strip (lower s)"
  by (simp add: lower_def strip_def dropWhile_map rev_map comp_def)

lemma split_ws_aux_lower:
  "split_ws_aux (lower cur) (lower s) = map lower (split_ws_aux cur s)"
proof (induction s arbitrary: cur)
  case Nil
  show ?case by (simp add: lower_def)
next
  case (Cons c cs)
  have e: "lower [] = []" by (simp add: lower_def)
  have a: "lower (cur @ [c]) = lower cur @ [lower_char c]" by (simp add: lower_def)
  have n: "(lower cur = []) = (cur = [])" by (simp add: lower_def)
  have "lower (c # cs) = lower_char c # lower cs" by (simp add: lower_def)
  then show ?case
    using Cons.IH [of "[]"] Cons.IH [of "cur @ [c]"] by (simp add: e a n)
qed

lemma split_ws_lower: "split_ws (lower s) = map lower (split_ws s)"
  using split_ws_aux_lower [of "[]" s] by (simp add: split_ws_def lower_def)

lemma split_ws_aux_dropWhile: "split_ws_aux [] (dropWhile is_space s) = split_ws_aux [] s"
  by (induction s) auto

lemma split_ws_aux_spaces:
  "\<forall>c\<in>set ws. is_space c \<Longrightarrow> split_ws_aux cur ws = (if cur = [] then [] else [cur])"
  by (induction ws arbitrary: cur) auto

lemma split_ws_aux_append_spaces:
  "\<forall>c\<in>set ws. is_space c \<Longrightarrow> split_ws_aux cur (s @ ws) = split_ws_aux cur s"
  by (induction s arbitrary: cur) (auto simp: split_ws_aux_spaces)

lemma split_ws_aux_drop_trailing:
  "split_ws_aux cur (rev (dropWhile is_space (rev s))) = split_ws_aux cur s"
proof -
  have "rev s = takeWhile is_space (rev s) @ dropWhile is_space (rev s)" by simp
  then have "s = rev (dropWhile is_space (rev s)) @ rev (takeWhile is_space (rev s))"
    by (metis rev_append rev_rev_ident)
  moreover have "\<forall>c\<in>set (rev (takeWhile is_space (rev s))). is_space c"
    by (auto dest: set_takeWhileD)
  ultimately show ?thesis
    using split_ws_aux_append_spaces by metis
qed

lemma split_ws_strip: "split_ws (strip s) = split_ws s"
  by (simp add: split_ws_def strip_def split_ws_aux_drop_trailing split_ws_aux_dropWhile)

text \<open>The normal form of a string is its words in lower case, joined by one blank.\<close>

lemma normalize_str_words: "normalize_str s = join '' '' (map lower (split_ws s))"
  by (simp add: normalize_str_def lower_strip split_ws_strip split_ws_lower)

section \<open>Properties of the window calculator\<close>

lemma cdw_error: "compute_display_window r x y z = Inl e \<Longrightarrow> e = OverflowError"
  by (auto simp: compute_display_window_def add_days_def Let_def
           split: if_splits option.splits sum.splits)

text \<open>
  Claim C1, as amended. For a row with a valid start date and non-negative offsets
  \<open>x\<close>, \<open>y\<close>, \<open>z\<close>: a Sale row gets the window from \<open>start - x\<close> to the end
  date when present, else the start date; a Price Increase row the window from
  \<open>start - y\<close> to the end date when present, else \<open>start + z\<close>; this whenever the
  shifted dates are dates of the calendar (0001-01-01 to 9999-12-31), and otherwise the
  computation raises \<open>OverflowError\<close>.
\<close>

theorem compute_display_window_rules:
  assumes "0 \<le> x" "0 \<le> y" "0 \<le> z" and "valid_date (start_date row)"
  shows "(normalize_str (entry_type row) = ''sale'' \<longrightarrow>
           compute_display_window row x y z =
             (if valid_date (start_date row - x)
              then Inr (start_date row - x,
                        case end_date row of Some e \<Rightarrow> e | None \<Rightarrow> start_date row)
              else Inl OverflowError)) \<and>
         (normalize_str (entry_type row) = ''price increase'' \<longrightarrow>
           compute_display_window row x y z =
             (if valid_date (start_date row - y) \<and>
                 (end_date row = None \<longrightarrow> valid_date (start_date row + z))
              then Inr (start_date row - y,
                        case end_date row of Some e \<Rightarrow> e | None \<Rightarrow> start_date row + z)
              else Inl OverflowError))"
  using assms
  by (auto simp: compute_display_window_def add_days_def valid_date_def MINORD_def MAXORD_def
           split: option.splits)

text \<open>
  The rules at the rows of the scenarios: a Sale from 2024-02-07 to 2024-02-17 with
  \<open>x = 3\<close> is shown from 2024-02-04 to 2024-02-17, an open-ended Price Increase of
  2024-02-04 with \<open>y = 2\<close> and \<open>z = 10\<close> from 2024-02-02 to 2024-02-14.
\<close>

theorem compute_display_window_rules_witness:
  "compute_display_window
     \<lparr> row_id = 1, vendor = ''Acme'', entry_type = ''Sale'',
       start_date = 738923, end_date = Some 738933 \<rparr> 3 2 10 = Inr (738920, 738933) \<and>
   compute_display_window
     \<lparr> row_id = 2, vendor = ''Acme'', entry_type = ''Price Increase'',
       start_date = 738920, end_date = None \<rparr> 3 2 10 = Inr (738918, 738930)"
proof -
  have s: "normalize_str ''Sale'' = ''sale''" by code_simp
  have p: "normalize_str ''Price Increase'' = ''price increase''" by code_simp
  have v: "valid_date 738923" "valid_date 738920" "valid_date 738918" "valid_date 738930"
    by (simp_all add: valid_date_def MINORD_def MAXORD_def)
  show ?thesis
    using compute_display_window_rules [of 3 2 10
            "\<lparr> row_id = 1, vendor = ''Acme'', entry_type = ''Sale'',
               start_date = 738923, end_date = Some 738933 \<rparr>"]
          compute_display_window_rules [of 3 2 10
            "\<lparr> row_id = 2, vendor = ''Acme'', entry_type = ''Price Increase'',
               start_date = 738920, end_date = None \<rparr>"]
    by (simp add: s p v)
qed

text \<open>
  The claim as stated, for every row and all non-negative offsets, fails at the edge
  of the calendar: a Sale starting on 0001-01-05 with \<open>x = 10\<close> has no window.
\<close>

theorem compute_display_window_counterexample:
  "compute_display_window
     \<lparr> row_id = 1, vendor = ''Acme'', entry_type = ''Sale'',
       start_date = 5, end_date = None \<rparr> 10 0 0 = Inl OverflowError"
  by code_simp

section \<open>Properties of the vendor aggregator\<close>

lemma sale_not_pi: "is_sale r \<Longrightarrow> \<not> is_pi r"
  by (simp add: is_sale_def is_pi_def)

lemma merge_min_commute: "merge_min (merge_min a b) c = merge_min (merge_min a c) b"
  by (cases a) (auto simp: merge_min_def)

lemma merge_max_commute: "merge_max (merge_max a b) c = merge_max (merge_max a c) b"
  by (cases a) (auto simp: merge_max_def)

text \<open>What one iteration does to each field of the plan.\<close>

lemma fold_row_fields:
  "plan_vendor (fold_row x y z r w) = plan_vendor w"
  "sale_display_start (fold_row x y z r w) =
     (if is_sale r then merge_min (sale_display_start w) (fst (row_window x y z r))
      else sale_display_start w)"
  "sale_display_end (fold_row x y z r w) =
     (if is_sale r then merge_max (sale_display_end w) (snd (row_window x y z r))
      else sale_display_end w)"
  "sale_real_start (fold_row x y z r w) =
     (if is_sale r then merge_min (sale_real_start w) (start_date r) else sale_real_start w)"
  "sale_real_end (fold_row x y z r w) =
     (if is_sale r
      then merge_max (sale_real_end w) (case end_date r of Some e \<Rightarrow> e | None \<Rightarrow> start_date r)
      else sale_real_end w)"
  "pi_display_start (fold_row x y z r w) =
     (if is_pi r then merge_min (pi_display_start w) (fst (row_window x y z r))
      else pi_display_start w)"
  "pi_display_end (fold_row x y z r w) =
     (if is_pi r then merge_max (pi_display_end w) (snd (row_window x y z r))
      else pi_display_end w)"
  "pi_real_start (fold_row x y z r w) =
     (if is_pi r then merge_min (pi_real_start w) (start_date r) else pi_real_start w)"
  "pi_real_end (fold_row x y z r w) =
     (if is_pi r
      then (case end_date r of Some e \<Rightarrow> merge_max (pi_real_end w) e | None \<Rightarrow> pi_real_end w)
      else pi_real_end w)"
  "VendorPlan.more (fold_row x y z r w) = VendorPlan.more w"
  by (simp_all add: fold_row_def merge_row_def Let_def is_sale_def is_pi_def split: option.splits)

lemma fold_row_commute:
  "fold_row x y z r1 (fold_row x y z r2 w) = fold_row x y z r2 (fold_row x y z r1 w)"
  by (rule VendorPlan.equality)
     (simp_all add: fold_row_fields merge_min_commute merge_max_commute split: option.splits)

lemma fold_row_comp_commute:
  "fold_row x y z r1 \<circ> fold_row x y z r2 = fold_row x y z r2 \<circ> fold_row x y z r1"
  by (rule ext) (simp add: fold_row_commute)

lemma fold_rows_mset:
  "mset rs = mset rs' \<Longrightarrow> fold (fold_row x y z) rs w = fold (fold_row x y z) rs' w"
  using fold_multiset_equiv [of rs "fold_row x y z" rs'] fold_row_comp_commute by metis

lemma step_Inr:
  "compute_display_window r x y z = Inr p \<Longrightarrow>
   aggregate_step bv r x y z =
     Inr (AList.update (vendor r) (fold_row x y z r (get_plan bv (vendor r))) bv)"
  by (cases p) (simp add: aggregate_step_def fold_row_def row_window_def Let_def)

lemma step_Inl: "compute_display_window r x y z = Inl e \<Longrightarrow> aggregate_step bv r x y z = Inl e"
  by (simp add: aggregate_step_def)

text \<open>The loop raises exactly when the window of some row cannot be computed.\<close>

lemma loop_Inl:
  "(aggregate_loop bv rows x y z = Inl e) =
   (e = OverflowError \<and> (\<exists>r\<in>set rows. isl (compute_display_window r x y z)))"
proof (induction rows arbitrary: bv)
  case Nil
  show ?case by simp
next
  case (Cons r rs)
  show ?case
  proof (cases "compute_display_window r x y z")
    case (Inl e')
    then have "e' = OverflowError" by (rule cdw_error)
    with Inl show ?thesis by (auto simp: step_Inl)
  next
    case (Inr p)
    then show ?thesis using Cons.IH by (simp add: step_Inr)
  qed
qed

lemma get_plan_update:
  "get_plan (AList.update k w bv) v = (if v = k then w else get_plan bv v)"
  by (simp add: get_plan_def update_conv')

text \<open>
  The dictionary after the loop: the plan of a vendor is the fold of the vendor's rows,
  in their order, over the plan the dictionary held before.
\<close>

lemma loop_lookup:
  "aggregate_loop bv rows x y z = Inr bv' \<Longrightarrow>
   map_of bv' v =
     (if v \<in> vendor ` set rows
      then Some (fold (fold_row x y z) (filter (\<lambda>r. vendor r = v) rows) (get_plan bv v))
      else map_of bv v)"
proof (induction rows arbitrary: bv)
  case Nil
  then show ?case by simp
next
  case (Cons r rs)
  show ?case
  proof (cases "compute_display_window r x y z")
    case (Inl e)
    with Cons.prems show ?thesis by (simp add: step_Inl)
  next
    case (Inr p)
    define bv1 where "bv1 = AList.update (vendor r) (fold_row x y z r (get_plan bv (vendor r))) bv"
    from Inr Cons.prems have "aggregate_loop bv1 rs x y z = Inr bv'"
      by (simp add: step_Inr bv1_def)
    from Cons.IH [OF this] have ih: "map_of bv' v =
      (if v \<in> vendor ` set rs
       then Some (fold (fold_row x y z) (filter (\<lambda>r. vendor r = v) rs) (get_plan bv1 v))
       else map_of bv1 v)" .
    show ?thesis
    proof (cases "v = vendor r")
      case True
      then have "get_plan bv1 v = fold_row x y z r (get_plan bv v)"
        and "map_of bv1 v = Some (fold_row x y z r (get_plan bv v))"
        by (simp_all add: bv1_def get_plan_update update_conv')
      moreover have "filter (\<lambda>ra. vendor ra = v) rs = []" if "v \<notin> vendor ` set rs"
        using that by (auto simp: filter_empty_conv)
      ultimately show ?thesis using ih True by auto
    next
      case False
      then have "get_plan bv1 v = get_plan bv v" and "map_of bv1 v = map_of bv v"
        by (simp_all add: bv1_def get_plan_update update_conv')
      with ih False show ?thesis by auto
    qed
  qed
qed

lemma loop_distinct:
  "aggregate_loop bv rows x y z = Inr bv' \<Longrightarrow> distinct (map fst bv) \<Longrightarrow> distinct (map fst bv')"
proof (induction rows arbitrary: bv)
  case Nil
  then show ?case by simp
next
  case (Cons r rs)
  show ?case
  proof (cases "compute_display_window r x y z")
    case (Inl e)
    with Cons.prems show ?thesis by (simp add: step_Inl)
  next
    case (Inr p)
    define bv1 where "bv1 = AList.update (vendor r) (fold_row x y z r (get_plan bv (vendor r))) bv"
    from Inr Cons.prems have "aggregate_loop bv1 rs x y z = Inr bv'"
      by (simp add: step_Inr bv1_def)
    moreover from Cons.prems have "distinct (map fst bv1)"
      by (simp add: bv1_def distinct_update)
    ultimately show ?thesis by (rule Cons.IH)
  qed
qed

lemma fold_rows_vendor: "plan_vendor (fold (fold_row x y z) rs w) = plan_vendor w"
  by (induction rs arbitrary: w) (simp_all add: fold_row_fields)

lemma find_values:
  "distinct (map fst bv) \<Longrightarrow> \<forall>(k, w)\<in>set bv. plan_vendor w = k \<Longrightarrow>
   find (\<lambda>w. plan_vendor w = v) (map snd bv) = map_of bv v"
proof (induction bv)
  case Nil
  show ?case by simp
next
  case (Cons p bv)
  obtain k w where p: "p = (k, w)" by (cases p)
  from Cons.prems p have kw: "plan_vendor w = k" by simp
  from Cons.prems have "find (\<lambda>w. plan_vendor w = v) (map snd bv) = map_of bv v"
    by (intro Cons.IH) auto
  with p kw show ?case by auto
qed

lemma agg_Inl:
  "(aggregate_by_vendor rows x y z = Inl e) =
   (e = OverflowError \<and> (\<exists>r\<in>set rows. isl (compute_display_window r x y z)))"
  using loop_Inl [of "[]" rows x y z e]
  by (cases "aggregate_loop [] rows x y z") (simp_all add: aggregate_by_vendor_def)

lemma vendor_plan_vendor: "plan_vendor (vendor_plan x y z rows v) = v"
  by (simp add: vendor_plan_def fold_rows_vendor new_plan_def)

lemma agg_dict:
  assumes "aggregate_by_vendor rows x y z = Inr plans"
  shows "\<exists>bv. plans = map snd bv \<and> distinct (map fst bv) \<and>
           (\<forall>u. map_of bv u =
              (if u \<in> vendor ` set rows then Some (vendor_plan x y z rows u) else None))"
proof -
  from assms obtain bv
    where loop: "aggregate_loop [] rows x y z = Inr bv" and plans: "plans = map snd bv"
    by (auto simp: aggregate_by_vendor_def split: sum.splits)
  have "map_of bv u = (if u \<in> vendor ` set rows then Some (vendor_plan x y z rows u) else None)"
    for u
    using loop_lookup [OF loop, of u] by (simp add: get_plan_def vendor_plan_def)
  moreover have "distinct (map fst bv)" using loop_distinct [OF loop] by simp
  ultimately show ?thesis using plans by blast
qed

text \<open>The returned list holds, for each vendor of the rows, the fold of its rows.\<close>

lemma agg_plan_for:
  assumes "aggregate_by_vendor rows x y z = Inr plans"
  shows "plan_for v plans =
           (if v \<in> vendor ` set rows then Some (vendor_plan x y z rows v) else None)"
proof -
  from agg_dict [OF assms] obtain bv
    where plans: "plans = map snd bv" and d: "distinct (map fst bv)"
      and look: "\<And>u. map_of bv u =
        (if u \<in> vendor ` set rows then Some (vendor_plan x y z rows u) else None)"
    by blast
  have inv: "\<forall>(k, w)\<in>set bv. plan_vendor w = k"
  proof clarify
    fix k w assume "(k, w) \<in> set bv"
    with d have "map_of bv k = Some w" by simp
    with look [of k] show "plan_vendor w = k"
      by (auto simp: vendor_plan_vendor split: if_splits)
  qed
  show ?thesis
    unfolding plan_for_def plans using find_values [OF d inv] look by simp
qed

lemma agg_member:
  assumes "aggregate_by_vendor rows x y z = Inr plans" and "w \<in> set plans"
  shows "plan_vendor w \<in> vendor ` set rows \<and> w = vendor_plan x y z rows (plan_vendor w)"
proof -
  from agg_dict [OF assms(1)] obtain bv
    where plans: "plans = map snd bv" and d: "distinct (map fst bv)"
      and look: "\<And>u. map_of bv u =
        (if u \<in> vendor ` set rows then Some (vendor_plan x y z rows u) else None)"
    by blast
  from assms(2) plans obtain k where "(k, w) \<in> set bv" by auto
  with d have "map_of bv k = Some w" by simp
  with look [of k] have "k \<in> vendor ` set rows" and "w = vendor_plan x y z rows k"
    by (auto split: if_splits)
  then show ?thesis by (simp add: vendor_plan_vendor)
qed

lemma vendor_plan_mset:
  "mset rows' = mset rows \<Longrightarrow> vendor_plan x y z rows' v = vendor_plan x y z rows v"
  unfolding vendor_plan_def by (rule fold_rows_mset) simp

text \<open>
  Claim C3. For every list of rows, all offsets and every permutation of the list:
  aggregating the permutation raises exactly when aggregating the list does, and
  otherwise every vendor has the same plan in both results (the same display windows
  and the same real dates of both promotion types), or no plan in either.
\<close>

theorem aggregate_order_independent:
  assumes "mset rows' = mset rows"
  shows "(\<forall>e. aggregate_by_vendor rows' x y z = Inl e \<longleftrightarrow> aggregate_by_vendor rows x y z = Inl e) \<and>
         (\<forall>plans plans'. aggregate_by_vendor rows x y z = Inr plans \<and>
                          aggregate_by_vendor rows' x y z = Inr plans' \<longrightarrow>
            (\<forall>v. plan_for v plans' = plan_for v plans))"
proof -
  from assms have s: "set rows' = set rows" by (rule mset_eq_setD)
  show ?thesis
    by (auto simp: agg_Inl s agg_plan_for vendor_plan_mset [OF assms])
qed

lemma Max_insert_max:
  "finite S \<Longrightarrow> Max (insert (max a e) S) = Max (insert a (insert e S))"
  by (cases "S = {}") (auto simp: max.assoc)

text \<open>Folding \<open>merge_max\<close> over a list of dates yields their maximum, if there is one.\<close>

lemma fold_merge_max:
  "fold (\<lambda>e a. merge_max a e) es a0 =
     (case a0 of None \<Rightarrow> (if es = [] then None else Some (Max (set es)))
               | Some a \<Rightarrow> Some (Max (set (a # es))))"
proof (induction es arbitrary: a0)
  case Nil
  show ?case by (simp split: option.splits)
next
  case (Cons e es)
  have m: "merge_max a0 e = Some (case a0 of None \<Rightarrow> e | Some a \<Rightarrow> max a e)"
    by (simp add: merge_max_def split: option.splits)
  have "fold (\<lambda>e a. merge_max a e) (e # es) a0 =
        Some (Max (set ((case a0 of None \<Rightarrow> e | Some a \<Rightarrow> max a e) # es)))"
    by (simp add: m Cons.IH)
  then show ?case
    by (cases a0) (simp_all add: Max_insert_max insert_commute)
qed

lemma fold_merge_min_None:
  "(fold (\<lambda>e a. merge_min a e) es a0 = None) = (a0 = None \<and> es = [])"
  by (induction es arbitrary: a0) (auto simp: merge_min_def split: option.splits)

lemma fold_merge_max_None:
  "(fold (\<lambda>e a. merge_max a e) es a0 = None) = (a0 = None \<and> es = [])"
  by (induction es arbitrary: a0) (auto simp: merge_max_def split: option.splits)

text \<open>Each field of the folded plan is a fold over the rows that feed it.\<close>

lemma fold_rows_fields:
  "sale_display_start (fold (fold_row x y z) rs w) =
     fold (\<lambda>e a. merge_min a e) (map (\<lambda>r. fst (row_window x y z r)) (filter is_sale rs))
       (sale_display_start w)"
  "sale_display_end (fold (fold_row x y z) rs w) =
     fold (\<lambda>e a. merge_max a e) (map (\<lambda>r. snd (row_window x y z r)) (filter is_sale rs))
       (sale_display_end w)"
  "sale_real_start (fold (fold_row x y z) rs w) =
     fold (\<lambda>e a. merge_min a e) (map start_date (filter is_sale rs)) (sale_real_start w)"
  "sale_real_end (fold (fold_row x y z) rs w) =
     fold (\<lambda>e a. merge_max a e)
       (map (\<lambda>r. case end_date r of Some e \<Rightarrow> e | None \<Rightarrow> start_date r) (filter is_sale rs))
       (sale_real_end w)"
  "pi_display_start (fold (fold_row x y z) rs w) =
     fold (\<lambda>e a. merge_min a e) (map (\<lambda>r. fst (row_window x y z r)) (filter is_pi rs))
       (pi_display_start w)"
  "pi_display_end (fold (fold_row x y z) rs w) =
     fold (\<lambda>e a. merge_max a e) (map (\<lambda>r. snd (row_window x y z r)) (filter is_pi rs))
       (pi_display_end w)"
  "pi_real_start (fold (fold_row x y z) rs w) =
     fold (\<lambda>e a. merge_min a e) (map start_date (filter is_pi rs)) (pi_real_start w)"
  "pi_real_end (fold (fold_row x y z) rs w) =
     fold (\<lambda>e a. merge_max a e)
       (map (\<lambda>r. the (end_date r)) (filter (\<lambda>r. is_pi r \<and> end_date r \<noteq> None) rs))
       (pi_real_end w)"
  by (induction rs arbitrary: w) (auto simp: fold_row_fields)

lemma filter_filter_vendor:
  "filter P (filter (\<lambda>r. vendor r = v) rows) = filter (\<lambda>r. vendor r = v \<and> P r) rows"
  by (induction rows) auto

lemma vendor_plan_pi_real_end:
  "pi_real_end (vendor_plan x y z rows v) =
     (if pi_source_ends v rows = [] then None else Some (Max (set (pi_source_ends v rows))))"
  by (simp add: vendor_plan_def fold_rows_fields fold_merge_max new_plan_def
        filter_filter_vendor pi_source_ends_def)

lemma agg_no_error:
  "aggregate_by_vendor rows x y z = Inr plans \<Longrightarrow>
   \<forall>r\<in>set rows. \<not> isl (compute_display_window r x y z)"
  using agg_Inl [of rows x y z OverflowError] by auto

text \<open>
  Claim C2. In every plan the aggregation returns, \<open>pi_real_end\<close> is absent unless
  some Price Increase row of that vendor carries a source end date, and then it is the
  latest of those source end dates: a row without end date neither sets it nor is
  compared against it, and the offset \<open>z\<close> of the display fallback has no part in it.
\<close>

theorem pi_real_end_only_from_source:
  assumes "aggregate_by_vendor rows x y z = Inr plans" and "w \<in> set plans"
  shows "pi_real_end w =
           (if pi_source_ends (plan_vendor w) rows = [] then None
            else Some (Max (set (pi_source_ends (plan_vendor w) rows))))"
proof -
  from agg_member [OF assms] have "w = vendor_plan x y z rows (plan_vendor w)" by simp
  then show ?thesis using vendor_plan_pi_real_end [of x y z rows "plan_vendor w"] by simp
qed

text \<open>
  An open-ended Price Increase alone leaves \<open>pi_real_end\<close> absent although its
  display window ends ten days after the start; together with a row that ends on
  2024-02-17 the real end is that date.
\<close>

theorem pi_real_end_only_from_source_witness:
  "aggregate_by_vendor [pi_row_B] 3 2 10 = Inr [plan_B] \<and>
   pi_display_end plan_B = Some 738930 \<and> pi_real_end plan_B = None \<and>
   aggregate_by_vendor [pi_row_B, pi_row_B2] 3 2 10 =
     Inr [plan_B\<lparr> pi_display_end := Some 738933, pi_real_end := Some 738933 \<rparr>] \<and>
   pi_real_end (plan_B\<lparr> pi_display_end := Some 738933, pi_real_end := Some 738933 \<rparr>) =
     Some (Max (set [738933]))"
proof -
  have a: "aggregate_by_vendor [pi_row_B] 3 2 10 = Inr [plan_B]" by code_simp
  have b: "aggregate_by_vendor [pi_row_B, pi_row_B2] 3 2 10 =
             Inr [plan_B\<lparr> pi_display_end := Some 738933, pi_real_end := Some 738933 \<rparr>]"
    by code_simp
  have s1: "pi_source_ends ''Bolt'' [pi_row_B] = []" by code_simp
  have s2: "pi_source_ends ''Bolt'' [pi_row_B, pi_row_B2] = [738933]" by code_simp
  have v: "plan_vendor plan_B = ''Bolt''" by (simp add: plan_B_def)
  show ?thesis
    using pi_real_end_only_from_source [OF a, of plan_B]
          pi_real_end_only_from_source [OF b,
            of "plan_B\<lparr> pi_display_end := Some 738933, pi_real_end := Some 738933 \<rparr>"]
    by (simp add: a b s1 s2 v plan_B_def)
qed

text \<open>
  The plans of the two vendors of the scenarios, aggregated in both orders: the lists
  differ in order, the plan of each vendor is the same.
\<close>

theorem aggregate_order_independent_witness:
  "mset [pi_row_B, sale_row_A] = mset [sale_row_A, pi_row_B] \<and>
   aggregate_by_vendor [sale_row_A, pi_row_B] 3 2 10 = Inr [plan_A, plan_B] \<and>
   aggregate_by_vendor [pi_row_B, sale_row_A] 3 2 10 = Inr [plan_B, plan_A] \<and>
   (\<forall>v. plan_for v [plan_B, plan_A] = plan_for v [plan_A, plan_B])"
proof -
  have m: "mset [pi_row_B, sale_row_A] = mset [sale_row_A, pi_row_B]" by simp
  have a: "aggregate_by_vendor [sale_row_A, pi_row_B] 3 2 10 = Inr [plan_A, plan_B]"
    by code_simp
  have b: "aggregate_by_vendor [pi_row_B, sale_row_A] 3 2 10 = Inr [plan_B, plan_A]"
    by code_simp
  from aggregate_order_independent [OF m, of 3 2 10] a b
  have "\<forall>v. plan_for v [plan_B, plan_A] = plan_for v [plan_A, plan_B]" by simp
  with m a b show ?thesis by simp
qed

lemma sale_window_end:
  "is_sale r \<Longrightarrow> \<not> isl (compute_display_window r x y z) \<Longrightarrow>
   snd (row_window x y z r) = (case end_date r of Some e \<Rightarrow> e | None \<Rightarrow> start_date r)"
  by (auto simp: row_window_def compute_display_window_def is_sale_def split: sum.splits)

lemma vendor_plan_sale_real_end:
  "sale_real_end (vendor_plan x y z rows v) =
     (if sale_ends v rows = [] then None else Some (Max (set (sale_ends v rows))))"
  by (simp add: vendor_plan_def fold_rows_fields fold_merge_max new_plan_def
        filter_filter_vendor sale_ends_def)

lemma vendor_plan_sale_display_end:
  assumes "\<forall>r\<in>set rows. \<not> isl (compute_display_window r x y z)"
  shows "sale_display_end (vendor_plan x y z rows v) = sale_real_end (vendor_plan x y z rows v)"
proof -
  have h: "map (\<lambda>r. snd (row_window x y z r)) (filter (\<lambda>r. vendor r = v \<and> is_sale r) rows) =
        map (\<lambda>r. case end_date r of Some e \<Rightarrow> e | None \<Rightarrow> start_date r)
          (filter (\<lambda>r. vendor r = v \<and> is_sale r) rows)"
    using assms by (auto simp: sale_window_end)
  show ?thesis
    by (simp add: vendor_plan_def fold_rows_fields new_plan_def filter_filter_vendor h)
qed

text \<open>
  Claim C10. When the aggregation returns, the plan of every vendor with at least one
  Sale row has \<open>sale_real_end\<close> populated: it is the latest of the real ends of the
  vendor's Sale rows, where a row without end date counts with its start date; the
  end of the display window is the same date. (For Price Increase rows the absence of
  an end is kept, as \<open>pi_real_end_only_from_source\<close> says.)
\<close>

theorem sale_real_end_populated:
  assumes "aggregate_by_vendor rows x y z = Inr plans" and "r \<in> set rows" and "is_sale r"
  shows "\<exists>w. plan_for (vendor r) plans = Some w \<and>
             sale_real_end w = Some (Max (set (sale_ends (vendor r) rows))) \<and>
             sale_display_end w = sale_real_end w"
proof -
  from assms(2,3) have "sale_ends (vendor r) rows \<noteq> []"
    by (auto simp: sale_ends_def filter_empty_conv)
  moreover from assms(2)
  have "plan_for (vendor r) plans = Some (vendor_plan x y z rows (vendor r))"
    by (simp add: agg_plan_for [OF assms(1)])
  ultimately show ?thesis
    using vendor_plan_sale_display_end [OF agg_no_error [OF assms(1)], of "vendor r"]
    by (simp add: vendor_plan_sale_real_end)
qed

text \<open>
  A Sale of Acme without end date, starting on 2024-02-07: its start date is the real
  end and the end of the display window.
\<close>

theorem sale_real_end_populated_witness:
  "aggregate_by_vendor [sale_row_A\<lparr> end_date := None \<rparr>] 3 2 10 =
     Inr [plan_A\<lparr> sale_display_end := Some 738923, sale_real_end := Some 738923 \<rparr>] \<and>
   is_sale (sale_row_A\<lparr> end_date := None \<rparr>) \<and>
   (\<exists>w. plan_for ''Acme'' [plan_A\<lparr> sale_display_end := Some 738923, sale_real_end := Some 738923 \<rparr>]
           = Some w \<and>
        sale_real_end w = Some 738923 \<and> sale_display_end w = sale_real_end w)"
proof -
  have a: "aggregate_by_vendor [sale_row_A\<lparr> end_date := None \<rparr>] 3 2 10 =
             Inr [plan_A\<lparr> sale_display_end := Some 738923, sale_real_end := Some 738923 \<rparr>]"
    by code_simp
  have s: "is_sale (sale_row_A\<lparr> end_date := None \<rparr>)" by code_simp
  have e: "sale_ends ''Acme'' [sale_row_A\<lparr> end_date := None \<rparr>] = [738923]" by code_simp
  have v: "vendor (sale_row_A\<lparr> end_date := None \<rparr>) = ''Acme''" by (simp add: sale_row_A_def)
  from sale_real_end_populated [OF a _ s] have
    "\<exists>w. plan_for ''Acme'' [plan_A\<lparr> sale_display_end := Some 738923, sale_real_end := Some 738923 \<rparr>]
           = Some w \<and>
        sale_real_end w = Some 738923 \<and> sale_display_end w = sale_real_end w"
    by (simp add: e v)
  with a s show ?thesis by simp
qed

section \<open>Entry-type dispatch\<close>

lemma normalize_str_cong:
  "map lower (split_ws e') = map lower (split_ws e) \<Longrightarrow> normalize_str e' = normalize_str e"
  by (simp add: normalize_str_words)

lemma cdw_entry_type:
  "normalize_str e' = normalize_str (entry_type r) \<Longrightarrow>
   compute_display_window (r\<lparr> entry_type := e' \<rparr>) x y z = compute_display_window r x y z"
  by (simp add: compute_display_window_def Let_def cong: sum.case_cong option.case_cong)

lemma merge_row_entry_type:
  "normalize_str e' = normalize_str (entry_type r) \<Longrightarrow>
   merge_row w (r\<lparr> entry_type := e' \<rparr>) ds de = merge_row w r ds de"
  by (simp add: merge_row_def Let_def cong: option.case_cong)

lemma step_entry_type:
  assumes "normalize_str e' = normalize_str (entry_type r)"
  shows "aggregate_step bv (r\<lparr> entry_type := e' \<rparr>) x y z = aggregate_step bv r x y z"
proof (cases "compute_display_window r x y z")
  case (Inl e)
  then show ?thesis
    by (simp add: aggregate_step_def cdw_entry_type [OF assms])
next
  case (Inr p)
  then show ?thesis
    by (cases p) (simp add: aggregate_step_def cdw_entry_type [OF assms] merge_row_entry_type [OF assms])
qed

lemma loop_entry_type:
  "\<forall>r\<in>set rows. normalize_str (f (entry_type r)) = normalize_str (entry_type r) \<Longrightarrow>
   aggregate_loop bv (map (\<lambda>r. r\<lparr> entry_type := f (entry_type r) \<rparr>) rows) x y z =
   aggregate_loop bv rows x y z"
  by (induction rows arbitrary: bv) (simp_all add: step_entry_type split: sum.splits)

lemma same_letter_lower: "same_letter c d \<Longrightarrow> lower_char c = lower_char d"
proof -
  assume "same_letter c d"
  then consider "c = d"
    | "is_upper c" "(of_char d :: nat) = of_char c + 32"
    | "is_upper d" "(of_char c :: nat) = of_char d + 32"
    by (auto simp: same_letter_def)
  then have "(of_char (lower_char c) :: nat) = of_char (lower_char d)"
  proof cases
    case 1
    then show ?thesis by simp
  next
    case 2
    then have "\<not> is_upper d" by (auto simp: is_upper_def Let_def)
    with 2 show ?thesis by (simp add: of_char_lower_char)
  next
    case 3
    then have "\<not> is_upper c" by (auto simp: is_upper_def Let_def)
    with 3 show ?thesis by (simp add: of_char_lower_char)
  qed
  then show ?thesis by (metis char_of_char)
qed

lemma same_letters_lower: "list_all2 same_letter e e' \<Longrightarrow> lower e = lower e'"
  unfolding lower_def by (induction rule: list_all2_induct) (simp_all add: same_letter_lower)

lemma split_ws_aux_word:
  "\<forall>c\<in>set w. \<not> is_space c \<Longrightarrow> split_ws_aux cur (w @ rest) = split_ws_aux (cur @ w) rest"
  by (induction w arbitrary: cur) simp_all

lemma split_ws_aux_lead:
  "\<forall>c\<in>set ws. is_space c \<Longrightarrow> split_ws_aux [] (ws @ rest) = split_ws_aux [] rest"
  by (induction ws) simp_all

lemma split_ws_aux_gap:
  "\<forall>c\<in>set ws. is_space c \<Longrightarrow> ws \<noteq> [] \<Longrightarrow> cur \<noteq> [] \<Longrightarrow>
   split_ws_aux cur (ws @ rest) = cur # split_ws_aux [] rest"
  by (cases ws) (simp_all add: split_ws_aux_lead)

lemma no_space_lower: "(\<forall>c\<in>set (lower e). \<not> is_space c) = (\<forall>c\<in>set e. \<not> is_space c)"
  by (simp add: lower_def)

lemma split_ws_one:
  assumes "\<forall>c\<in>set p. is_space c" "\<forall>c\<in>set q. is_space c" "\<forall>c\<in>set e. \<not> is_space c" "e \<noteq> []"
  shows "split_ws (p @ e @ q) = [e]"
proof -
  have "split_ws (p @ e @ q) = split_ws_aux [] (e @ q)"
    by (simp add: split_ws_def split_ws_aux_lead [OF assms(1)])
  also have "\<dots> = split_ws_aux e q" using split_ws_aux_word [OF assms(3), of "[]" q] by simp
  also have "\<dots> = [e]" using assms(2,4) by (simp add: split_ws_aux_spaces)
  finally show ?thesis .
qed

lemma split_ws_two:
  assumes "\<forall>c\<in>set p. is_space c" "\<forall>c\<in>set q. is_space c" "\<forall>c\<in>set ws. is_space c" "ws \<noteq> []"
    and "\<forall>c\<in>set e1. \<not> is_space c" "e1 \<noteq> []" "\<forall>c\<in>set e2. \<not> is_space c" "e2 \<noteq> []"
  shows "split_ws (p @ e1 @ ws @ e2 @ q) = [e1, e2]"
proof -
  have "split_ws (p @ e1 @ ws @ e2 @ q) = split_ws_aux [] (e1 @ ws @ e2 @ q)"
    by (simp add: split_ws_def split_ws_aux_lead [OF assms(1)])
  also have "\<dots> = split_ws_aux e1 (ws @ e2 @ q)"
    using split_ws_aux_word [OF assms(5), of "[]" "ws @ e2 @ q"] by simp
  also have "\<dots> = e1 # split_ws_aux [] (e2 @ q)"
    using assms(3,4,6) by (rule split_ws_aux_gap)
  also have "split_ws_aux [] (e2 @ q) = split_ws_aux e2 q"
    using split_ws_aux_word [OF assms(7), of "[]" q] by simp
  also have "\<dots> = [e2]" using assms(2,8) by (simp add: split_ws_aux_spaces)
  finally show ?thesis .
qed

lemma spelled_sale:
  assumes "list_all2 same_letter e ''sale''" "\<forall>c\<in>set p. is_space c" "\<forall>c\<in>set q. is_space c"
  shows "normalize_str (p @ e @ q) = ''sale''"
proof -
  have l0: "lower ''sale'' = ''sale''" by code_simp
  from same_letters_lower [OF assms(1)] have l: "lower e = ''sale''" by (simp add: l0)
  have "\<forall>c\<in>set ''sale''. \<not> is_space c" by code_simp
  with l have ns: "\<forall>c\<in>set e. \<not> is_space c" using no_space_lower [of e] by simp
  from l have ne: "e \<noteq> []" by (auto simp: lower_def)
  show ?thesis
    by (simp add: normalize_str_words split_ws_one [OF assms(2,3) ns ne] l)
qed

lemma spelled_price_increase:
  assumes "list_all2 same_letter e1 ''price''" "list_all2 same_letter e2 ''increase''"
    and "\<forall>c\<in>set p. is_space c" "\<forall>c\<in>set q. is_space c" "\<forall>c\<in>set ws. is_space c" "ws \<noteq> []"
  shows "normalize_str (p @ e1 @ ws @ e2 @ q) = ''price increase''"
proof -
  have l0: "lower ''price'' = ''price''" "lower ''increase'' = ''increase''" by code_simp+
  from same_letters_lower [OF assms(1)] have l1: "lower e1 = ''price''" by (simp add: l0)
  from same_letters_lower [OF assms(2)] have l2: "lower e2 = ''increase''" by (simp add: l0)
  have "\<forall>c\<in>set ''price''. \<not> is_space c" "\<forall>c\<in>set ''increase''. \<not> is_space c" by code_simp+
  with l1 l2 have ns: "\<forall>c\<in>set e1. \<not> is_space c" "\<forall>c\<in>set e2. \<not> is_space c"
    using no_space_lower [of e1] no_space_lower [of e2] by simp_all
  from l1 l2 have ne: "e1 \<noteq> []" "e2 \<noteq> []" by (auto simp: lower_def)
  show ?thesis
    by (simp add: normalize_str_words
          split_ws_two [OF assms(3,4,5,6) ns(1) ne(1) ns(2) ne(2)] l1 l2)
qed

text \<open>
  Claim C9. The window calculator is total over the entry-type strings: a row whose
  normalised entry type is neither \<open>sale\<close> nor \<open>price increase\<close> raises no error
  and gets the degenerate window \<open>(start, start)\<close>. The dispatch on the entry type
  is blind to case and white space, in the calculator and in the aggregator: every
  spelling of \<open>sale\<close> in capital or small letters, with blanks around it, has the
  normal form \<open>sale\<close> and the window of a Sale; every such spelling of \<open>price\<close>
  and \<open>increase\<close> with blanks around and between them has the normal form
  \<open>price increase\<close> and the window of a Price Increase; and entry types with the
  same words up to case give the same window and the same aggregation.
\<close>

theorem entry_type_dispatch:
  "(normalize_str (entry_type row) \<noteq> ''sale'' \<and> normalize_str (entry_type row) \<noteq> ''price increase'' \<longrightarrow>
      compute_display_window row x y z = Inr (start_date row, start_date row)) \<and>
   (list_all2 same_letter e ''sale'' \<and> (\<forall>c\<in>set p \<union> set q. is_space c) \<longrightarrow>
      normalize_str (p @ e @ q) = ''sale'' \<and>
      compute_display_window (row\<lparr> entry_type := p @ e @ q \<rparr>) x y z =
        compute_display_window (row\<lparr> entry_type := ''sale'' \<rparr>) x y z) \<and>
   (list_all2 same_letter e1 ''price'' \<and> list_all2 same_letter e2 ''increase'' \<and>
    (\<forall>c\<in>set p \<union> set q \<union> set ws. is_space c) \<and> ws \<noteq> [] \<longrightarrow>
      normalize_str (p @ e1 @ ws @ e2 @ q) = ''price increase'' \<and>
      compute_display_window (row\<lparr> entry_type := p @ e1 @ ws @ e2 @ q \<rparr>) x y z =
        compute_display_window (row\<lparr> entry_type := ''price increase'' \<rparr>) x y z) \<and>
   (map lower (split_ws e') = map lower (split_ws (entry_type row)) \<longrightarrow>
      compute_display_window (row\<lparr> entry_type := e' \<rparr>) x y z = compute_display_window row x y z) \<and>
   ((\<forall>r\<in>set rows. map lower (split_ws (f (entry_type r))) = map lower (split_ws (entry_type r))) \<longrightarrow>
      aggregate_by_vendor (map (\<lambda>r. r\<lparr> entry_type := f (entry_type r) \<rparr>) rows) x y z =
      aggregate_by_vendor rows x y z)"
proof (intro conjI impI)
  assume "normalize_str (entry_type row) \<noteq> ''sale'' \<and> normalize_str (entry_type row) \<noteq> ''price increase''"
  then show "compute_display_window row x y z = Inr (start_date row, start_date row)"
    by (simp add: compute_display_window_def Let_def)
next
  assume a: "list_all2 same_letter e ''sale'' \<and> (\<forall>c\<in>set p \<union> set q. is_space c)"
  have s0: "normalize_str ''sale'' = ''sale''" by code_simp
  from a show n: "normalize_str (p @ e @ q) = ''sale''"
    by (intro spelled_sale) auto
  have "compute_display_window ((row\<lparr> entry_type := ''sale'' \<rparr>)\<lparr> entry_type := p @ e @ q \<rparr>) x y z =
        compute_display_window (row\<lparr> entry_type := ''sale'' \<rparr>) x y z"
    by (rule cdw_entry_type) (simp add: n s0)
  then show "compute_display_window (row\<lparr> entry_type := p @ e @ q \<rparr>) x y z =
        compute_display_window (row\<lparr> entry_type := ''sale'' \<rparr>) x y z"
    by simp
next
  assume a: "list_all2 same_letter e1 ''price'' \<and> list_all2 same_letter e2 ''increase'' \<and>
    (\<forall>c\<in>set p \<union> set q \<union> set ws. is_space c) \<and> ws \<noteq> []"
  have s0: "normalize_str ''price increase'' = ''price increase''" by code_simp
  from a show n: "normalize_str (p @ e1 @ ws @ e2 @ q) = ''price increase''"
    by (intro spelled_price_increase) auto
  have "compute_display_window
          ((row\<lparr> entry_type := ''price increase'' \<rparr>)\<lparr> entry_type := p @ e1 @ ws @ e2 @ q \<rparr>) x y z =
        compute_display_window (row\<lparr> entry_type := ''price increase'' \<rparr>) x y z"
    by (rule cdw_entry_type) (simp add: n s0)
  then show "compute_display_window (row\<lparr> entry_type := p @ e1 @ ws @ e2 @ q \<rparr>) x y z =
        compute_display_window (row\<lparr> entry_type := ''price increase'' \<rparr>) x y z"
    by simp
next
  assume "map lower (split_ws e') = map lower (split_ws (entry_type row))"
  then show "compute_display_window (row\<lparr> entry_type := e' \<rparr>) x y z = compute_display_window row x y z"
    by (intro cdw_entry_type normalize_str_cong)
next
  assume "\<forall>r\<in>set rows. map lower (split_ws (f (entry_type r))) = map lower (split_ws (entry_type r))"
  then have "\<forall>r\<in>set rows. normalize_str (f (entry_type r)) = normalize_str (entry_type r)"
    by (auto intro: normalize_str_cong)
  then show "aggregate_by_vendor (map (\<lambda>r. r\<lparr> entry_type := f (entry_type r) \<rparr>) rows) x y z =
      aggregate_by_vendor rows x y z"
    by (simp add: aggregate_by_vendor_def loop_entry_type)
qed

text \<open>
  An entry type \<open>Clearance\<close> gets the degenerate window. \<open>SaLe\<close> between a
  blank, a no-break space and a tab is a Sale: the window of Scenario A, from
  2024-02-04 to 2024-02-17. \<open>PRICE  Increase\<close> is a Price Increase: the window of
  Scenario B, from 2024-02-02 to 2024-02-14. Lower-casing and padding the entry
  types changes no plan.
\<close>

theorem entry_type_dispatch_witness:
  "compute_display_window (sale_row_A\<lparr> entry_type := ''Clearance'' \<rparr>) 3 2 10 = Inr (738923, 738923) \<and>
   normalize_str ([CHR 0x20, CHR 0xA0] @ ''SaLe'' @ [CHR 0x09]) = ''sale'' \<and>
   compute_display_window
     (sale_row_A\<lparr> entry_type := [CHR 0x20, CHR 0xA0] @ ''SaLe'' @ [CHR 0x09] \<rparr>) 3 2 10 =
     Inr (738920, 738933) \<and>
   normalize_str ([] @ ''PRICE'' @ ''  '' @ ''Increase'' @ []) = ''price increase'' \<and>
   compute_display_window
     (pi_row_B\<lparr> entry_type := [] @ ''PRICE'' @ ''  '' @ ''Increase'' @ [] \<rparr>) 3 2 10 =
     Inr (738918, 738930) \<and>
   compute_display_window (sale_row_A\<lparr> entry_type := ''  SALE '' \<rparr>) 3 2 10 =
     compute_display_window sale_row_A 3 2 10 \<and>
   aggregate_by_vendor
     (map (\<lambda>r. r\<lparr> entry_type := '' '' @ lower (entry_type r) @ ''  '' \<rparr>) [sale_row_A, pi_row_B2]) 3 2 10 =
   aggregate_by_vendor [sale_row_A, pi_row_B2] 3 2 10"
proof -
  have n: "normalize_str ''Clearance'' = ''clearance''" by code_simp
  have s: "start_date sale_row_A = 738923" by (simp add: sale_row_A_def)
  have 1: "compute_display_window (sale_row_A\<lparr> entry_type := ''Clearance'' \<rparr>) 3 2 10 = Inr (738923, 738923)"
    using entry_type_dispatch [of "sale_row_A\<lparr> entry_type := ''Clearance'' \<rparr>" 3 2 10]
    by (simp add: n s)
  have hs: "list_all2 same_letter ''SaLe'' ''sale''" by code_simp
  have bs: "\<forall>c\<in>set [CHR 0x20, CHR 0xA0] \<union> set [CHR 0x09]. is_space c" by code_simp
  have vs: "compute_display_window (sale_row_A\<lparr> entry_type := ''sale'' \<rparr>) 3 2 10 = Inr (738920, 738933)"
    by code_simp
  have 2: "normalize_str ([CHR 0x20, CHR 0xA0] @ ''SaLe'' @ [CHR 0x09]) = ''sale''"
    and 3: "compute_display_window
     (sale_row_A\<lparr> entry_type := [CHR 0x20, CHR 0xA0] @ ''SaLe'' @ [CHR 0x09] \<rparr>) 3 2 10 =
     Inr (738920, 738933)"
    using entry_type_dispatch [where row = sale_row_A and x = 3 and y = 2 and z = 10
        and e = "''SaLe''" and p = "[CHR 0x20, CHR 0xA0]" and q = "[CHR 0x09]"] hs bs vs
    by metis+
  have hp: "list_all2 same_letter ''PRICE'' ''price''" "list_all2 same_letter ''Increase'' ''increase''"
    by code_simp+
  have bp: "\<forall>c\<in>set [] \<union> set [] \<union> set ''  ''. is_space c" by code_simp
  have vp: "compute_display_window (pi_row_B\<lparr> entry_type := ''price increase'' \<rparr>) 3 2 10 = Inr (738918, 738930)"
    by code_simp
  have ws: "''  '' \<noteq> []" by simp
  have 4: "normalize_str ([] @ ''PRICE'' @ ''  '' @ ''Increase'' @ []) = ''price increase''"
    and 5: "compute_display_window
     (pi_row_B\<lparr> entry_type := [] @ ''PRICE'' @ ''  '' @ ''Increase'' @ [] \<rparr>) 3 2 10 =
     Inr (738918, 738930)"
    using entry_type_dispatch [where row = pi_row_B and x = 3 and y = 2 and z = 10
        and ?e1.0 = "''PRICE''" and ?e2.0 = "''Increase''" and p = "[]" and q = "[]" and ws = "''  ''"]
      hp bp vp ws
    by metis+
  have e: "map lower (split_ws ''  SALE '') = map lower (split_ws (entry_type sale_row_A))"
    by code_simp
  have f: "\<forall>r\<in>set [sale_row_A, pi_row_B2].
             map lower (split_ws ('' '' @ lower (entry_type r) @ ''  '')) = map lower (split_ws (entry_type r))"
    by code_simp
  have 6: "compute_display_window (sale_row_A\<lparr> entry_type := ''  SALE '' \<rparr>) 3 2 10 =
             compute_display_window sale_row_A 3 2 10"
    and 7: "aggregate_by_vendor
     (map (\<lambda>r. r\<lparr> entry_type := '' '' @ lower (entry_type r) @ ''  '' \<rparr>) [sale_row_A, pi_row_B2]) 3 2 10 =
      aggregate_by_vendor [sale_row_A, pi_row_B2] 3 2 10"
    using entry_type_dispatch [where row = sale_row_A and x = 3 and y = 2 and z = 10
        and e' = "''  SALE ''" and rows = "[sale_row_A, pi_row_B2]"
        and f = "\<lambda>e. '' '' @ lower e @ ''  ''"] e f
    by blast+
  from 1 2 3 4 5 6 7 show ?thesis by blast
qed

section \<open>Properties of the sync driver\<close>

lemma mf_keys_distinct:
  "MF_SALE_START \<noteq> MF_SALE_END" "MF_SALE_START \<noteq> MF_PI_START" "MF_SALE_START \<noteq> MF_PI_END"
  "MF_SALE_END \<noteq> MF_PI_START" "MF_SALE_END \<noteq> MF_PI_END" "MF_PI_START \<noteq> MF_PI_END"
  by (simp_all add: MF_SALE_START_def MF_SALE_END_def MF_PI_START_def MF_PI_END_def)

lemma mf_key_build [simp]: "mf_key (build_date_metafield pid ns k d) = k"
  by (simp add: build_date_metafield_def)

lemma mf_value_build [simp]: "mf_value (build_date_metafield pid ns k d) = isoformat d"
  by (simp add: build_date_metafield_def)

lemma sale_should_exist_iff:
  "sale_should_exist w today \<longleftrightarrow>
     (\<exists>ds de. sale_display_start w = Some ds \<and> sale_display_end w = Some de \<and> ds \<le> today \<and> today \<le> de)"
  by (auto simp: sale_should_exist_def)

lemma pi_should_exist_iff:
  "pi_should_exist w today \<longleftrightarrow>
     (\<exists>ds de. pi_display_start w = Some ds \<and> pi_display_end w = Some de \<and> ds \<le> today \<and> today \<le> de)"
  by (auto simp: pi_should_exist_def)

lemma payload_sale_part:
  "filter (\<lambda>m. mf_key m \<in> {MF_SALE_START, MF_SALE_END}) (product_payload w today pid) =
     (if sale_should_exist w today \<and> sale_real_start w \<noteq> None \<and> sale_real_end w \<noteq> None
      then [build_date_metafield pid MF_NAMESPACE MF_SALE_START (the (sale_real_start w)),
            build_date_metafield pid MF_NAMESPACE MF_SALE_END (the (sale_real_end w))]
      else [])"
  using mf_keys_distinct by (simp add: product_payload_def)

lemma payload_pi_part:
  "filter (\<lambda>m. mf_key m \<in> {MF_PI_START, MF_PI_END}) (product_payload w today pid) =
     (if pi_should_exist w today \<and> pi_real_start w \<noteq> None
      then build_date_metafield pid MF_NAMESPACE MF_PI_START (the (pi_real_start w)) #
           (case pi_real_end w of
              Some pe \<Rightarrow> [build_date_metafield pid MF_NAMESPACE MF_PI_END pe]
            | None \<Rightarrow> [])
      else [])"
  using mf_keys_distinct by (auto simp: product_payload_def)

lemma payload_values:
  "m \<in> set (product_payload w today pid) \<Longrightarrow>
   mf_value m \<in> isoformat ` (set_option (sale_real_start w) \<union> set_option (sale_real_end w) \<union>
                              set_option (pi_real_start w) \<union> set_option (pi_real_end w))"
  by (auto simp: product_payload_def split: if_splits)

text \<open>
  Claim C4. For every plan and every date \<open>today\<close>, and each promotion type:
  the should-exist flag holds exactly when both display dates are present and
  \<open>display start \<le> today \<le> display end\<close>; when it holds and the real start (for
  Sale also the real end) is present, the fields of that type in the payload are built
  from the real dates. Every value in the payload is the serialisation of a real date
  of the plan; the display dates are never written.
\<close>

theorem sync_decision:
  "(sale_should_exist w today \<longleftrightarrow>
      (\<exists>ds de. sale_display_start w = Some ds \<and> sale_display_end w = Some de \<and>
               ds \<le> today \<and> today \<le> de)) \<and>
   (pi_should_exist w today \<longleftrightarrow>
      (\<exists>ds de. pi_display_start w = Some ds \<and> pi_display_end w = Some de \<and>
               ds \<le> today \<and> today \<le> de)) \<and>
   (sale_should_exist w today \<and> sale_real_start w = Some rs \<and> sale_real_end w = Some re \<longrightarrow>
      filter (\<lambda>m. mf_key m \<in> {MF_SALE_START, MF_SALE_END}) (product_payload w today pid) =
        [build_date_metafield pid MF_NAMESPACE MF_SALE_START rs,
         build_date_metafield pid MF_NAMESPACE MF_SALE_END re]) \<and>
   (pi_should_exist w today \<and> pi_real_start w = Some ps \<longrightarrow>
      filter (\<lambda>m. mf_key m \<in> {MF_PI_START, MF_PI_END}) (product_payload w today pid) =
        build_date_metafield pid MF_NAMESPACE MF_PI_START ps #
        (case pi_real_end w of
           Some pe \<Rightarrow> [build_date_metafield pid MF_NAMESPACE MF_PI_END pe]
         | None \<Rightarrow> [])) \<and>
   (\<forall>m\<in>set (product_payload w today pid).
      mf_value m \<in> isoformat ` (set_option (sale_real_start w) \<union> set_option (sale_real_end w) \<union>
                                 set_option (pi_real_start w) \<union> set_option (pi_real_end w)))"
  using sale_should_exist_iff [of w today] pi_should_exist_iff [of w today]
        payload_sale_part [of w today pid] payload_pi_part [of w today pid]
        payload_values [of _ w today pid]
  by simp

text \<open>
  Scenario A: the Sale from 2024-02-07 to 2024-02-17 with \<open>x = 3\<close> on 2024-02-05.
  The banner dates are written, as 2024-02-07 and 2024-02-17, not 2024-02-04.
\<close>

theorem sync_decision_witness:
  "sale_should_exist plan_A 738921 \<and>
   product_payload plan_A 738921 ''gid://shopify/Product/1'' =
     [\<lparr> mf_ownerId = ''gid://shopify/Product/1'', mf_namespace = ''custom'',
        mf_key = ''promo_sale_start_date'', mf_type = ''date'', mf_value = ''2024-02-07'' \<rparr>,
      \<lparr> mf_ownerId = ''gid://shopify/Product/1'', mf_namespace = ''custom'',
        mf_key = ''promo_sale_end_date'', mf_type = ''date'', mf_value = ''2024-02-17'' \<rparr>] \<and>
   filter (\<lambda>m. mf_key m \<in> {MF_SALE_START, MF_SALE_END})
     (product_payload plan_A 738921 ''gid://shopify/Product/1'') =
     [build_date_metafield ''gid://shopify/Product/1'' MF_NAMESPACE MF_SALE_START 738923,
      build_date_metafield ''gid://shopify/Product/1'' MF_NAMESPACE MF_SALE_END 738933]"
proof -
  have a: "sale_should_exist plan_A 738921" by code_simp
  have b: "product_payload plan_A 738921 ''gid://shopify/Product/1'' =
     [\<lparr> mf_ownerId = ''gid://shopify/Product/1'', mf_namespace = ''custom'',
        mf_key = ''promo_sale_start_date'', mf_type = ''date'', mf_value = ''2024-02-07'' \<rparr>,
      \<lparr> mf_ownerId = ''gid://shopify/Product/1'', mf_namespace = ''custom'',
        mf_key = ''promo_sale_end_date'', mf_type = ''date'', mf_value = ''2024-02-17'' \<rparr>]"
    by code_simp
  have r: "sale_real_start plan_A = Some 738923" "sale_real_end plan_A = Some 738933"
    by (simp_all add: plan_A_def)
  from sync_decision [of plan_A 738921 738923 738933 "''gid://shopify/Product/1''"] a r
  have "filter (\<lambda>m. mf_key m \<in> {MF_SALE_START, MF_SALE_END})
     (product_payload plan_A 738921 ''gid://shopify/Product/1'') =
     [build_date_metafield ''gid://shopify/Product/1'' MF_NAMESPACE MF_SALE_START 738923,
      build_date_metafield ''gid://shopify/Product/1'' MF_NAMESPACE MF_SALE_END 738933]"
    by blast
  with a b show ?thesis by blast
qed

lemma vendor_plan_pi_starts:
  "(pi_display_start (vendor_plan x y z rows v) = None) = (filter (\<lambda>r. vendor r = v \<and> is_pi r) rows = [])"
  "(pi_real_start (vendor_plan x y z rows v) = None) = (filter (\<lambda>r. vendor r = v \<and> is_pi r) rows = [])"
  by (simp_all add: vendor_plan_def fold_rows_fields fold_merge_min_None new_plan_def filter_filter_vendor)

lemma agg_pi_real_start:
  assumes "aggregate_by_vendor rows x y z = Inr plans" and "w \<in> set plans"
    and "pi_should_exist w today"
  shows "pi_real_start w \<noteq> None"
proof -
  from agg_member [OF assms(1,2)] have w: "w = vendor_plan x y z rows (plan_vendor w)" by simp
  from assms(3) have "pi_display_start w \<noteq> None" by (simp add: pi_should_exist_def)
  with w vendor_plan_pi_starts [of x y z rows "plan_vendor w"] show ?thesis by metis
qed

lemma single_pi_plan:
  assumes "is_pi r" and "end_date r = None"
  shows "sale_display_start (vendor_plan x y z [r] (vendor r)) = None"
    and "pi_real_start (vendor_plan x y z [r] (vendor r)) = Some (start_date r)"
    and "pi_real_end (vendor_plan x y z [r] (vendor r)) = None"
proof -
  from assms(1) have "\<not> is_sale r" by (auto dest: sale_not_pi)
  then show "sale_display_start (vendor_plan x y z [r] (vendor r)) = None"
    by (simp add: vendor_plan_def fold_row_fields new_plan_def)
  from assms show "pi_real_start (vendor_plan x y z [r] (vendor r)) = Some (start_date r)"
    by (simp add: vendor_plan_def fold_row_fields new_plan_def merge_min_def)
  from assms show "pi_real_end (vendor_plan x y z [r] (vendor r)) = None"
    by (simp add: vendor_plan_def fold_row_fields new_plan_def)
qed

text \<open>
  Claim C5. For every plan the aggregation returns and every \<open>today\<close> for which the
  Price Increase should exist, the payload of a product holds the Price Increase start
  field, built from the real start, and holds the end field exactly when the plan's
  \<open>pi_real_end\<close> is present; when the rows are a single open-ended Price Increase,
  the payload is the start field alone.
\<close>

theorem pi_payload_fields:
  assumes "aggregate_by_vendor rows x y z = Inr plans" and "w \<in> set plans"
    and "pi_should_exist w today"
  shows "(\<exists>ps. pi_real_start w = Some ps \<and>
            filter (\<lambda>m. mf_key m \<in> {MF_PI_START, MF_PI_END}) (product_payload w today pid) =
              build_date_metafield pid MF_NAMESPACE MF_PI_START ps #
              (case pi_real_end w of
                 Some pe \<Rightarrow> [build_date_metafield pid MF_NAMESPACE MF_PI_END pe]
               | None \<Rightarrow> [])) \<and>
         ((\<exists>m\<in>set (product_payload w today pid). mf_key m = MF_PI_START)) \<and>
         ((\<exists>m\<in>set (product_payload w today pid). mf_key m = MF_PI_END) \<longleftrightarrow> pi_real_end w \<noteq> None) \<and>
         (\<forall>r. rows = [r] \<and> is_pi r \<and> end_date r = None \<longrightarrow>
            product_payload w today pid =
              [build_date_metafield pid MF_NAMESPACE MF_PI_START (start_date r)])"
proof -
  from agg_pi_real_start [OF assms] obtain ps where ps: "pi_real_start w = Some ps" by auto
  have part: "filter (\<lambda>m. mf_key m \<in> {MF_PI_START, MF_PI_END}) (product_payload w today pid) =
              build_date_metafield pid MF_NAMESPACE MF_PI_START ps #
              (case pi_real_end w of
                 Some pe \<Rightarrow> [build_date_metafield pid MF_NAMESPACE MF_PI_END pe]
               | None \<Rightarrow> [])"
    using payload_pi_part [of w today pid] assms(3) ps by simp
  have start: "\<exists>m\<in>set (product_payload w today pid). mf_key m = MF_PI_START"
    using assms(3) ps by (auto simp: product_payload_def)
  have "end": "(\<exists>m\<in>set (product_payload w today pid). mf_key m = MF_PI_END) \<longleftrightarrow> pi_real_end w \<noteq> None"
    using assms(3) ps mf_keys_distinct by (auto simp: product_payload_def)
  have single: "product_payload w today pid =
              [build_date_metafield pid MF_NAMESPACE MF_PI_START (start_date r)]"
    if r: "rows = [r]" "is_pi r" "end_date r = None" for r
  proof -
    have m: "plan_vendor w \<in> vendor ` set rows"
      and w0: "w = vendor_plan x y z rows (plan_vendor w)"
      using agg_member [OF assms(1,2)] by blast+
    from m r(1) have v: "plan_vendor w = vendor r" by simp
    have w: "w = vendor_plan x y z [r] (vendor r)"
      using w0 unfolding r(1) v .
    have "\<not> sale_should_exist w today"
      using single_pi_plan(1) [OF r(2,3), of x y z] w by (simp add: sale_should_exist_def)
    then show ?thesis
      using single_pi_plan(2,3) [OF r(2,3), of x y z] w assms(3)
      by (simp add: product_payload_def)
  qed
  from ps part start "end" single show ?thesis by blast
qed

text \<open>
  Scenario B: the open-ended Price Increase of 2024-02-04 with \<open>y = 2\<close> and
  \<open>z = 10\<close> is shown from 2024-02-02 to 2024-02-14; on 2024-02-09 the payload is
  the start field alone, with the value 2024-02-04.
\<close>

theorem pi_payload_fields_witness:
  "aggregate_by_vendor [pi_row_B] 3 2 10 = Inr [plan_B] \<and>
   pi_display_start plan_B = Some 738918 \<and> pi_display_end plan_B = Some 738930 \<and>
   pi_should_exist plan_B 738925 \<and>
   product_payload plan_B 738925 ''gid://shopify/Product/1'' =
     [build_date_metafield ''gid://shopify/Product/1'' MF_NAMESPACE MF_PI_START 738920] \<and>
   build_date_metafield ''gid://shopify/Product/1'' MF_NAMESPACE MF_PI_START 738920 =
     \<lparr> mf_ownerId = ''gid://shopify/Product/1'', mf_namespace = ''custom'',
       mf_key = ''promo_pi_start_date'', mf_type = ''date'', mf_value = ''2024-02-04'' \<rparr>"
proof -
  have a: "aggregate_by_vendor [pi_row_B] 3 2 10 = Inr [plan_B]" by code_simp
  have d: "pi_display_start plan_B = Some 738918" "pi_display_end plan_B = Some 738930"
    by (simp_all add: plan_B_def)
  have s: "pi_should_exist plan_B 738925" by code_simp
  have p: "is_pi pi_row_B" by code_simp
  have e: "end_date pi_row_B = None" "start_date pi_row_B = 738920" by (simp_all add: pi_row_B_def)
  have b: "build_date_metafield ''gid://shopify/Product/1'' MF_NAMESPACE MF_PI_START 738920 =
     \<lparr> mf_ownerId = ''gid://shopify/Product/1'', mf_namespace = ''custom'',
       mf_key = ''promo_pi_start_date'', mf_type = ''date'', mf_value = ''2024-02-04'' \<rparr>"
    by code_simp
  from pi_payload_fields [OF a _ s, of "''gid://shopify/Product/1''"] p e
  have "product_payload plan_B 738925 ''gid://shopify/Product/1'' =
     [build_date_metafield ''gid://shopify/Product/1'' MF_NAMESPACE MF_PI_START 738920]"
    by simp
  with a d s b show ?thesis by blast
qed

lemma get_metafield_ids_fold_None:
  "out k = None \<Longrightarrow> \<forall>n. Some n \<in> set mfs \<longrightarrow> node_key n \<noteq> Some k \<Longrightarrow>
   fold (\<lambda>mf out. case mf of
                       None \<Rightarrow> out
                     | Some n \<Rightarrow> (case node_key n of
                                    None \<Rightarrow> out
                                  | Some k \<Rightarrow> if k \<in> set keys then out(k := node_id n) else out))
          mfs out k = None"
proof (induction mfs arbitrary: out)
  case Nil
  then show ?case by simp
next
  case (Cons mf mfs)
  show ?case
  proof (cases mf)
    case None
    with Cons show ?thesis by simp
  next
    case (Some n)
    with Cons.prems have nk: "node_key n \<noteq> Some k" by simp
    show ?thesis
    proof (cases "node_key n")
      case None
      with Some Cons show ?thesis by simp
    next
      case (Some k')
      with nk have "k' \<noteq> k" by simp
      with Some \<open>mf = Some n\<close> Cons show ?thesis by simp
    qed
  qed
qed

lemma get_metafield_ids_None:
  "\<forall>n. Some n \<in> set mfs \<longrightarrow> node_key n \<noteq> Some k \<Longrightarrow> get_metafield_ids keys mfs k = None"
  unfolding get_metafield_ids_def by (rule get_metafield_ids_fold_None) simp_all

lemma delete_loop_absent:
  "\<forall>k\<in>set ks. id_map k = None \<Longrightarrow> delete_loop delete_ok id_map ks = ([], False)"
  by (induction ks) simp_all

lemma delete_loop_skip:
  "id_map k = None \<Longrightarrow>
   delete_loop delete_ok id_map (ks1 @ k # ks2) = delete_loop delete_ok id_map (ks1 @ ks2)"
  by (induction ks1) (simp_all split: option.splits)

lemma delete_loop_all_ok:
  "\<forall>i. delete_ok i \<Longrightarrow>
   delete_loop delete_ok id_map ks =
     (concat (map (\<lambda>k. case id_map k of None \<Rightarrow> [] | Some i \<Rightarrow> if i = [] then [] else [i]) ks),
      False)"
  by (induction ks) (simp_all split: option.splits)

text \<open>
  Claim C6. For every plan and every \<open>today\<close>, a promotion type that should not
  exist has both its start and its end key in the list of keys to delete; the list is
  a function of the plan and of \<open>today\<close> only, not of what the product holds.
  Deleting a field the product does not hold is a no-op, field by field: the deletion
  loop ends as if the key of that field were not in the list, whatever the other
  fields are and whatever a delete call would answer; when the store holds none of
  the fields, no call is issued and no error branch is taken; and when every call that
  is issued succeeds, exactly the fields the product holds are deleted, without error.
\<close>

theorem deletion_marks:
  "(\<not> sale_should_exist w today \<longrightarrow>
      MF_SALE_START \<in> set (keys_to_delete w today) \<and> MF_SALE_END \<in> set (keys_to_delete w today)) \<and>
   (\<not> pi_should_exist w today \<longrightarrow>
      MF_PI_START \<in> set (keys_to_delete w today) \<and> MF_PI_END \<in> set (keys_to_delete w today)) \<and>
   ((\<forall>n. Some n \<in> set mfs \<longrightarrow> node_key n \<noteq> Some k) \<and> keys_to_delete w today = ks1 @ k # ks2 \<longrightarrow>
      delete_metafields delete_ok mfs (keys_to_delete w today) =
        delete_loop delete_ok (get_metafield_ids (keys_to_delete w today) mfs) (ks1 @ ks2)) \<and>
   ((\<forall>n. Some n \<in> set mfs \<longrightarrow> node_key n \<notin> Some ` set (keys_to_delete w today)) \<longrightarrow>
      delete_metafields delete_ok mfs (keys_to_delete w today) = ([], False)) \<and>
   ((\<forall>i. delete_ok i) \<longrightarrow>
      delete_metafields delete_ok mfs (keys_to_delete w today) =
        (concat (map (\<lambda>k. case get_metafield_ids (keys_to_delete w today) mfs k of
                              None \<Rightarrow> []
                            | Some i \<Rightarrow> if i = [] then [] else [i])
                     (keys_to_delete w today)),
         False))"
proof (intro conjI impI)
  assume "\<not> sale_should_exist w today"
  then show "MF_SALE_START \<in> set (keys_to_delete w today)" "MF_SALE_END \<in> set (keys_to_delete w today)"
    by (simp_all add: keys_to_delete_def)
next
  assume "\<not> pi_should_exist w today"
  then show "MF_PI_START \<in> set (keys_to_delete w today)" "MF_PI_END \<in> set (keys_to_delete w today)"
    by (simp_all add: keys_to_delete_def)
next
  assume a: "(\<forall>n. Some n \<in> set mfs \<longrightarrow> node_key n \<noteq> Some k) \<and> keys_to_delete w today = ks1 @ k # ks2"
  then have "get_metafield_ids (keys_to_delete w today) mfs k = None"
    by (intro get_metafield_ids_None) simp
  from delete_loop_skip [of "get_metafield_ids (keys_to_delete w today) mfs" k delete_ok ks1 ks2,
         OF this] a
  show "delete_metafields delete_ok mfs (keys_to_delete w today) =
        delete_loop delete_ok (get_metafield_ids (keys_to_delete w today) mfs) (ks1 @ ks2)"
    by (simp add: delete_metafields_def)
next
  assume a: "\<forall>n. Some n \<in> set mfs \<longrightarrow> node_key n \<notin> Some ` set (keys_to_delete w today)"
  have "\<forall>k\<in>set (keys_to_delete w today). get_metafield_ids (keys_to_delete w today) mfs k = None"
    using a by (auto intro!: get_metafield_ids_None)
  then show "delete_metafields delete_ok mfs (keys_to_delete w today) = ([], False)"
    unfolding delete_metafields_def by (rule delete_loop_absent)
next
  assume "\<forall>i. delete_ok i"
  then show "delete_metafields delete_ok mfs (keys_to_delete w today) =
        (concat (map (\<lambda>k. case get_metafield_ids (keys_to_delete w today) mfs k of
                              None \<Rightarrow> []
                            | Some i \<Rightarrow> if i = [] then [] else [i])
                     (keys_to_delete w today)),
         False)"
    unfolding delete_metafields_def by (rule delete_loop_all_ok)
qed

text \<open>
  Scenario C: on 2024-02-18, the day after the Sale window, both Sale keys (and both
  Price Increase keys) are to be deleted; for a product that holds none of them
  nothing is deleted and nothing fails. The open-ended Price Increase of Bolt on
  2024-02-15, the day after its window: the product holds the start field and never
  held an end field; the start field is deleted, the absent end field costs nothing.
\<close>

theorem deletion_marks_witness:
  "\<not> sale_should_exist plan_A 738934 \<and> \<not> pi_should_exist plan_A 738934 \<and>
   keys_to_delete plan_A 738934 =
     [''promo_sale_start_date'', ''promo_sale_end_date'', ''promo_pi_start_date'', ''promo_pi_end_date''] \<and>
   MF_SALE_START \<in> set (keys_to_delete plan_A 738934) \<and>
   MF_SALE_END \<in> set (keys_to_delete plan_A 738934) \<and>
   delete_metafields (\<lambda>i. False) [None, None, None, None] (keys_to_delete plan_A 738934) = ([], False) \<and>
   \<not> pi_should_exist plan_B 738931 \<and>
   keys_to_delete plan_B 738931 = [MF_SALE_START, MF_SALE_END, MF_PI_START] @ MF_PI_END # [] \<and>
   delete_metafields (\<lambda>i. True)
     [None, None, Some \<lparr> node_id = Some ''gid9'', node_key = Some ''promo_pi_start_date'' \<rparr>, None]
     (keys_to_delete plan_B 738931) = ([''gid9''], False)"
proof -
  have s: "\<not> sale_should_exist plan_A 738934" by code_simp
  have p: "\<not> pi_should_exist plan_A 738934" by code_simp
  have k: "keys_to_delete plan_A 738934 =
     [''promo_sale_start_date'', ''promo_sale_end_date'', ''promo_pi_start_date'', ''promo_pi_end_date'']"
    by code_simp
  have n: "\<forall>n. Some n \<in> set [None, None, None, None] \<longrightarrow>
             node_key n \<notin> Some ` set (keys_to_delete plan_A 738934)"
    by simp
  from deletion_marks [of plan_A 738934 "[None, None, None, None]" _ _ _ "\<lambda>i. False"] s p n
  have 1: "MF_SALE_START \<in> set (keys_to_delete plan_A 738934) \<and>
        MF_SALE_END \<in> set (keys_to_delete plan_A 738934) \<and>
        delete_metafields (\<lambda>i. False) [None, None, None, None] (keys_to_delete plan_A 738934) = ([], False)"
    by blast
  have pb: "\<not> pi_should_exist plan_B 738931" by code_simp
  have kb: "keys_to_delete plan_B 738931 = [MF_SALE_START, MF_SALE_END, MF_PI_START] @ MF_PI_END # []"
    by code_simp
  have ab: "\<forall>n. Some n \<in> set [None, None, Some \<lparr> node_id = Some ''gid9'', node_key = Some ''promo_pi_start_date'' \<rparr>, None]
              \<longrightarrow> node_key n \<noteq> Some MF_PI_END"
    by (simp add: MF_PI_END_def)
  have lb: "delete_loop (\<lambda>i. True)
      (get_metafield_ids (keys_to_delete plan_B 738931)
         [None, None, Some \<lparr> node_id = Some ''gid9'', node_key = Some ''promo_pi_start_date'' \<rparr>, None])
      ([MF_SALE_START, MF_SALE_END, MF_PI_START] @ []) = ([''gid9''], False)"
    by code_simp
  from deletion_marks [of plan_B 738931
      "[None, None, Some \<lparr> node_id = Some ''gid9'', node_key = Some ''promo_pi_start_date'' \<rparr>, None]"
      MF_PI_END "[MF_SALE_START, MF_SALE_END, MF_PI_START]" "[]" "\<lambda>i. True"] ab kb
  have 2: "delete_metafields (\<lambda>i. True)
     [None, None, Some \<lparr> node_id = Some ''gid9'', node_key = Some ''promo_pi_start_date'' \<rparr>, None]
     (keys_to_delete plan_B 738931) = ([''gid9''], False)"
    unfolding lb by blast
  from s p k 1 pb kb 2 show ?thesis by blast
qed

section \<open>Properties of the row reader\<close>

lemma fetch_append:
  "fetch_active_today lib (a @ b) = fetch_active_today lib a @ fetch_active_today lib b"
  by (induction a) (simp_all add: Let_def)

lemma unparseable_None: "unparseable lib v \<Longrightarrow> to_date_only lib v = None"
  by (cases v) (simp_all add: unparseable_def to_date_only_def Let_def)

lemma to_date_only_RawNone: "to_date_only lib RawNone = None"
  by (simp add: to_date_only_def)

text \<open>
  Claim C8, as amended. Reading the rows never raises for a date that cannot be
  parsed: a row whose start value is unparseable is skipped and the rows before and
  after it are read as if it were not there; an unparseable end value is read as an
  absent end date.
\<close>

theorem unparseable_dates_skipped:
  "(unparseable lib (raw_Date_of_Start r) \<longrightarrow>
      fetch_active_today lib (pre @ r # post) =
        fetch_active_today lib pre @ fetch_active_today lib post) \<and>
   (unparseable lib (raw_Date_of_End r) \<longrightarrow>
      fetch_active_today lib (pre @ r # post) =
        fetch_active_today lib (pre @ r\<lparr> raw_Date_of_End := RawNone \<rparr> # post))"
  by (simp add: fetch_append unparseable_None to_date_only_RawNone Let_def)

text \<open>A row with the start \<open>not a date\<close> before the row of Bolt: only Bolt is read.\<close>

theorem unparseable_dates_skipped_witness:
  "unparseable no_date_lib (raw_Date_of_Start raw_bad_start) \<and>
   fetch_active_today no_date_lib [raw_bad_start, raw_row_B] = [pi_row_B]"
proof -
  have u: "unparseable no_date_lib (raw_Date_of_Start raw_bad_start)"
    by (simp add: unparseable_def no_date_lib_def raw_bad_start_def)
  have e: "fetch_active_today no_date_lib [] = []" by simp
  have p: "fetch_active_today no_date_lib [raw_row_B] = [pi_row_B]" by code_simp
  from unparseable_dates_skipped [of no_date_lib raw_bad_start "[]" "[raw_row_B]"] u
  have "fetch_active_today no_date_lib [raw_bad_start, raw_row_B] = [pi_row_B]"
    by (simp only: e p append_Nil)
  with u show ?thesis by simp
qed

text \<open>
  The claim as stated fails: a result set whose first row has an unparseable start and
  whose second row has an unparseable end is read without error; the first row is
  dropped and the second is kept as an open-ended Price Increase.
\<close>

theorem fetch_active_today_counterexample:
  "fetch_active_today no_date_lib
     [raw_bad_start, raw_row_B\<lparr> raw_Date_of_End := RawStr ''soon'' \<rparr>] = [pi_row_B]"
  by code_simp

section \<open>Properties of the date normaliser\<close>










































declare dec.simps [simp del]





















end
